theory Spec2Isabelle
  imports Complex_Main "HOL-Library.Word"
begin

unbundle bit_operations_syntax

section \<open>Embedding of package gostl (main.go) and of its command\<close>

subsection \<open>Bytes, machine integers and errors\<close>

type_synonym byte = "8 word"
type_synonym uint32 = "32 word"
type_synonym uint64 = "64 word"

text \<open>
  Every way in which the Go code stops without its regular result is a value of
  \<open>error\<close>: an \<open>error\<close> returned by package \<open>os\<close> (\<open>PathError\<close> from
  \<open>os.Open\<close> and \<open>os.Create\<close>, \<open>EOF\<close> from \<open>Read\<close> at the end of the file,
  \<open>WriteError\<close> from a \<open>Write\<close> that could not store all its bytes), an error made by
  \<open>fmt.Errorf\<close> (\<open>ErrorString\<close> with the message of the source), the process exit of
  \<open>log.Fatalf\<close> (\<open>Fatal\<close>), the run-time panics of an index or a slice expression
  out of range (\<open>IndexOutOfRange i n\<close> for index \<open>i\<close> in a sequence of length \<open>n\<close>),
  and the end of the process when the Go runtime cannot allocate
  (\<^verbatim>\<open>fatal error: runtime: out of memory\<close>, \<open>OutOfMemory\<close>).

  Only the first four are values that a function of the package returns to its caller
  (\<open>returned\<close>); with each of the others the process stops inside the call.
\<close>

datatype error =
    PathError
  | EOF
  | WriteError
  | ErrorString string
  | Fatal
  | IndexOutOfRange nat nat
  | SliceOutOfRange
  | OutOfMemory


text \<open>Sequencing of fallible steps: the first error is the result.\<close>

definition bind_err :: "error + 'a \<Rightarrow> ('a \<Rightarrow> error + 'b) \<Rightarrow> error + 'b" where
  "bind_err r f = (case r of Inl e \<Rightarrow> Inl e | Inr x \<Rightarrow> f x)"

text \<open>
  \<^verbatim>\<open>func uint32From(bytes []byte) (x uint32)\<close> (main.go, lines 168-176):
  \<open>log.Fatalf\<close> unless there are exactly 4 bytes, then
  \<^verbatim>\<open>for i := 0; i < 4; i++ { x |= uint32(bytes[i]) << uint(8*i) }\<close>.
\<close>

definition uint32From :: "byte list \<Rightarrow> error + uint32" where
  "uint32From bytes =
     (if length bytes \<noteq> 4 then Inl Fatal
      else Inr (fold (\<lambda>i x. x OR push_bit (8 * i) (ucast (bytes ! i))) [0..<4] 0))"

text \<open>
  \<^verbatim>\<open>func bytesFrom(u uint32) []byte\<close> (main.go, lines 178-184):
  \<^verbatim>\<open>bytes := make([]byte, 4)\<close>, then
  \<^verbatim>\<open>for i := 0; i < 4; i++ { bytes[i] = byte((u >> uint(8*i)) & 0xff) }\<close>.
\<close>

definition bytesFrom :: "uint32 \<Rightarrow> byte list" where
  "bytesFrom u =
     fold (\<lambda>i bytes. bytes[i := ucast (drop_bit (8 * i) u AND 0xff)]) [0..<4] (replicate 4 0)"

subsection \<open>Data model\<close>

text \<open>
  A \<open>float32\<close> is its IEEE-754 binary32 bit pattern: \<open>math.Float32bits\<close> and
  \<open>math.Float32frombits\<close> are the two directions of this identification, so equality of two
  \<open>float32\<close> values in this theory is equality bit for bit. A \<open>float64\<close> is its binary64
  bit pattern in the same way.
\<close>

datatype float32 = Float32frombits (Float32bits: uint32)
datatype float64 = Float64frombits (Float64bits: uint64)

text \<open>
  The array type \<^verbatim>\<open>[3]float32\<close>, with reading and writing of component \<open>i\<close>; the
  source uses the indices 0, 1 and 2 only.
\<close>

datatype vec3 = Vec3 float32 float32 float32

fun idx :: "vec3 \<Rightarrow> nat \<Rightarrow> float32" where
  "idx (Vec3 x y z) i = (if i = 0 then x else if i = 1 then y else z)"

fun upd :: "vec3 \<Rightarrow> nat \<Rightarrow> float32 \<Rightarrow> vec3" where
  "upd (Vec3 x y z) i c =
     (if i = 0 then Vec3 c y z else if i = 1 then Vec3 x c z else Vec3 x y c)"

text \<open>\<^verbatim>\<open>type Triangle struct { Normal, P0, P1, P2 [3]float32 }\<close>\<close>

record Triangle =
  Normal :: vec3
  P0 :: vec3
  P1 :: vec3
  P2 :: vec3

text \<open>\<^verbatim>\<open>type Model struct { filepath string; Triangles []Triangle }\<close>\<close>

record Model =
  filepath :: string
  Triangles :: "Triangle list"

subsection \<open>IEEE-754 values and comparison\<close>

text \<open>
  The value denoted by a bit pattern: not a number, an infinity with its sign
  (\<open>True\<close> is negative), or a finite number given by its sign and its magnitude, which
  keeps the two zeros apart.
\<close>

datatype fpval = NaN | Infty bool | Fin bool rat

definition pow2 :: "int \<Rightarrow> rat" where
  "pow2 k = (if 0 \<le> k then 2 ^ nat k else 1 / 2 ^ nat (- k))"

definition bias :: "nat \<Rightarrow> int" where
  "bias ew = 2 ^ (ew - 1) - 1"

text \<open>
  Decoding of a pattern with \<open>fw\<close> fraction bits and \<open>ew\<close> exponent bits
  (binary32: 23 and 8, binary64: 52 and 11): sign, biased exponent and fraction are the three
  fields from the top; the largest exponent holds infinities and NaNs, exponent 0 the zeros
  and subnormal numbers.
\<close>

definition decode :: "nat \<Rightarrow> nat \<Rightarrow> nat \<Rightarrow> fpval" where
  "decode fw ew n =
     (let s = odd (n div 2 ^ (fw + ew));
          e = (n div 2 ^ fw) mod 2 ^ ew;
          f = n mod 2 ^ fw
      in if e = 2 ^ ew - 1 then (if f = 0 then Infty s else NaN)
         else if e = 0 then Fin s (of_nat f * pow2 (1 - bias ew - int fw))
         else Fin s (of_nat (2 ^ fw + f) * pow2 (int e - bias ew - int fw)))"

definition decode32 :: "float32 \<Rightarrow> fpval" where
  "decode32 x = decode 23 8 (unat (Float32bits x))"

definition decode64 :: "float64 \<Rightarrow> fpval" where
  "decode64 x = decode 52 11 (unat (Float64bits x))"

definition isNaN :: "float32 \<Rightarrow> bool" where
  "isNaN x = (decode32 x = NaN)"

text \<open>
  Comparison of values: a NaN compares false with everything; otherwise minus infinity is
  below every finite number, which is below plus infinity, and finite numbers compare by
  their signed value (so the two zeros are equal).
\<close>

fun rank :: "fpval \<Rightarrow> int" where
  "rank NaN = 0"
| "rank (Infty s) = (if s then - 1 else 1)"
| "rank (Fin s q) = 0"

fun signed :: "fpval \<Rightarrow> rat" where
  "signed NaN = 0"
| "signed (Infty s) = 0"
| "signed (Fin s q) = (if s then - q else q)"

definition val_lt :: "fpval \<Rightarrow> fpval \<Rightarrow> bool" where
  "val_lt a b =
     (a \<noteq> NaN \<and> b \<noteq> NaN \<and> (rank a < rank b \<or> (rank a = rank b \<and> signed a < signed b)))"

definition val_eq :: "fpval \<Rightarrow> fpval \<Rightarrow> bool" where
  "val_eq a b = (a \<noteq> NaN \<and> b \<noteq> NaN \<and> rank a = rank b \<and> signed a = signed b)"

text \<open>The Go operators \<^verbatim>\<open><\<close>, \<^verbatim>\<open>>\<close>, \<^verbatim>\<open><=\<close> and \<^verbatim>\<open>==\<close> on \<open>float32\<close>.\<close>

definition flt :: "float32 \<Rightarrow> float32 \<Rightarrow> bool" where
  "flt x y = val_lt (decode32 x) (decode32 y)"

definition fgt :: "float32 \<Rightarrow> float32 \<Rightarrow> bool" where
  "fgt x y = val_lt (decode32 y) (decode32 x)"

definition fle :: "float32 \<Rightarrow> float32 \<Rightarrow> bool" where
  "fle x y = (val_lt (decode32 x) (decode32 y) \<or> val_eq (decode32 x) (decode32 y))"

definition feq :: "float32 \<Rightarrow> float32 \<Rightarrow> bool" where
  "feq x y = val_eq (decode32 x) (decode32 y)"

subsection \<open>Minimum, maximum and the bounding box\<close>

text \<open>
  \<^verbatim>\<open>func minimum(xs ...float32) float32\<close> (main.go, lines 201-209): \<^verbatim>\<open>m := xs[0]\<close>, which
  panics when no argument is given, then for \<open>i\<close> from 1 on
  \<^verbatim>\<open>if xs[i] < m { m = xs[i] }\<close>. \<open>maximum\<close> (lines 211-219) is the same with \<^verbatim>\<open>>\<close>.
\<close>

definition fmin :: "float32 \<Rightarrow> float32 \<Rightarrow> float32" where
  "fmin y m = (if flt y m then y else m)"

definition fmax :: "float32 \<Rightarrow> float32 \<Rightarrow> float32" where
  "fmax y M = (if fgt y M then y else M)"

fun minimum :: "float32 list \<Rightarrow> error + float32" where
  "minimum [] = Inl (IndexOutOfRange 0 0)"
| "minimum (x # xs) = Inr (fold fmin xs x)"

fun maximum :: "float32 list \<Rightarrow> error + float32" where
  "maximum [] = Inl (IndexOutOfRange 0 0)"
| "maximum (x # xs) = Inr (fold fmax xs x)"

text \<open>
  The body of the loop of \<open>BoundingBox\<close> (main.go, lines 32-37) for one axis: the component
  of the corner is replaced by the minimum (maximum) of itself and the components of the
  three vertices.
\<close>

definition minAxis :: "nat \<Rightarrow> Triangle \<Rightarrow> vec3 \<Rightarrow> error + vec3" where
  "minAxis i t mn =
     bind_err (minimum [idx mn i, idx (P0 t) i, idx (P1 t) i, idx (P2 t) i])
       (\<lambda>c. Inr (upd mn i c))"

definition maxAxis :: "nat \<Rightarrow> Triangle \<Rightarrow> vec3 \<Rightarrow> error + vec3" where
  "maxAxis i t mx =
     bind_err (maximum [idx mx i, idx (P0 t) i, idx (P1 t) i, idx (P2 t) i])
       (\<lambda>c. Inr (upd mx i c))"

definition bboxStep :: "Triangle \<Rightarrow> vec3 \<times> vec3 \<Rightarrow> error + vec3 \<times> vec3" where
  "bboxStep t acc =
     bind_err (minAxis 0 t (fst acc)) (\<lambda>mn.
     bind_err (minAxis 1 t mn) (\<lambda>mn.
     bind_err (minAxis 2 t mn) (\<lambda>mn.
     bind_err (maxAxis 0 t (snd acc)) (\<lambda>mx.
     bind_err (maxAxis 1 t mx) (\<lambda>mx.
     bind_err (maxAxis 2 t mx) (\<lambda>mx. Inr (mn, mx)))))))"

fun bboxLoop :: "Triangle list \<Rightarrow> vec3 \<times> vec3 \<Rightarrow> error + vec3 \<times> vec3" where
  "bboxLoop [] acc = Inr acc"
| "bboxLoop (t # ts) acc = bind_err (bboxStep t acc) (bboxLoop ts)"

text \<open>
  \<^verbatim>\<open>func (m *Model) BoundingBox() (min, max [3]float32)\<close> (main.go, lines 28-40):
  \<^verbatim>\<open>min = m.Triangles[0].P0\<close> and \<^verbatim>\<open>max = m.Triangles[0].P0\<close>, which panic on a model
  without triangles, then the loop over all triangles, the first one included.
\<close>

definition BoundingBox :: "Model \<Rightarrow> error + vec3 \<times> vec3" where
  "BoundingBox m =
     (case Triangles m of
        [] \<Rightarrow> Inl (IndexOutOfRange 0 0)
      | t0 # _ \<Rightarrow> bboxLoop (Triangles m) (P0 t0, P0 t0))"

subsection \<open>Vocabulary of the bounding-box properties\<close>

text \<open>
  The coordinates on axis \<open>i\<close> of all vertices of a sequence of triangles, in order, and
  what it means for \<open>m\<close> to be the minimum (maximum) of a sequence of numbers: it occurs in
  the sequence and is less (greater) than or equal to every number of it.
\<close>

definition coords :: "nat \<Rightarrow> Triangle list \<Rightarrow> float32 list" where
  "coords i ts = concat (map (\<lambda>t. [idx (P0 t) i, idx (P1 t) i, idx (P2 t) i]) ts)"

definition vertices :: "Triangle \<Rightarrow> vec3 \<times> vec3 \<times> vec3" where
  "vertices t = (P0 t, P1 t, P2 t)"

definition is_least :: "float32 \<Rightarrow> float32 list \<Rightarrow> bool" where
  "is_least m cs = (m \<in> set cs \<and> (\<forall>c\<in>set cs. fle m c))"

definition is_greatest :: "float32 \<Rightarrow> float32 list \<Rightarrow> bool" where
  "is_greatest m cs = (m \<in> set cs \<and> (\<forall>c\<in>set cs. fle c m))"

subsection \<open>Sample values\<close>

text \<open>
  The numbers 0, 1, 2 and a quiet NaN as \<open>float32\<close>; the triangle of the bounding-box
  example of the specification (vertices \<open>(0,0,0)\<close>, \<open>(1,0,0)\<close>, \<open>(0,1,0)\<close>, here
  with normal \<open>(0,0,1)\<close>) as a model of one triangle; a model whose only triangle has NaN
  coordinates; and the model without triangles.
\<close>

definition f32_zero :: float32 where "f32_zero = Float32frombits 0x00000000"
definition f32_one :: float32 where "f32_one = Float32frombits 0x3F800000"
definition f32_two :: float32 where "f32_two = Float32frombits 0x40000000"
definition f32_nan :: float32 where "f32_nan = Float32frombits 0x7FC00000"

definition tri_mesh :: Model where
  "tri_mesh = \<lparr>filepath = ''in.stl'', Triangles =
     [\<lparr>Normal = Vec3 f32_zero f32_zero f32_one,
       P0 = Vec3 f32_zero f32_zero f32_zero,
       P1 = Vec3 f32_one f32_zero f32_zero,
       P2 = Vec3 f32_zero f32_one f32_zero\<rparr>]\<rparr>"

definition nan_mesh :: Model where
  "nan_mesh = \<lparr>filepath = ''in.stl'', Triangles =
     [\<lparr>Normal = Vec3 f32_zero f32_zero f32_one,
       P0 = Vec3 f32_nan f32_zero f32_zero,
       P1 = Vec3 f32_one f32_nan f32_zero,
       P2 = Vec3 f32_two f32_one f32_zero\<rparr>]\<rparr>"

definition empty_mesh :: Model where
  "empty_mesh = \<lparr>filepath = ''in.stl'', Triangles = []\<rparr>"

subsection \<open>Files\<close>

text \<open>
  The state of the operating system as far as the package observes it: the contents of the
  regular files by path, the paths at which \<open>os.Create\<close> succeeds, and the number of
  bytes the device still accepts. A file open for reading is the sequence of its bytes
  not yet read; a file open for writing is named by its path.
\<close>

record filesystem =
  files :: "string \<Rightarrow> byte list option"
  writable :: "string \<Rightarrow> bool"
  free :: nat

definition os_Open :: "filesystem \<Rightarrow> string \<Rightarrow> error + byte list" where
  "os_Open fs path = (case files fs path of None \<Rightarrow> Inl PathError | Some bs \<Rightarrow> Inr bs)"

text \<open>\<open>os.Create\<close> creates the file or truncates it to length 0.\<close>

definition os_Create :: "filesystem \<Rightarrow> string \<Rightarrow> error + filesystem" where
  "os_Create fs path =
     (if writable fs path then Inr (fs\<lparr>files := (files fs)(path \<mapsto> [])\<rparr>) else Inl PathError)"

text \<open>
  \<^verbatim>\<open>n, err := reader.Read(buffer)\<close> with a fresh buffer of \<open>k\<close> zero bytes: the buffer
  after the call, \<open>n\<close>, \<open>err\<close>, and the rest of the file. A regular file yields
  as many bytes as are left, up to \<open>k\<close>, and \<open>0, io.EOF\<close> once none is left.
\<close>

definition file_Read :: "nat \<Rightarrow> byte list \<Rightarrow> (byte list \<times> nat \<times> error option) \<times> byte list" where
  "file_Read k reader =
     (if k = 0 then (([], 0, None), reader)
      else if reader = [] then ((replicate k 0, 0, Some EOF), reader)
      else let n = min k (length reader)
           in ((take n reader @ replicate (k - n) 0, n, None), drop n reader))"

text \<open>
  \<^verbatim>\<open>n, err := writer.Write(b)\<close>: the bytes are appended to the file as far as the device
  accepts them, and \<open>err\<close> is non-nil exactly when \<open>n < len(b)\<close>.
\<close>

definition file_Write :: "string \<Rightarrow> byte list \<Rightarrow> filesystem \<Rightarrow> (nat \<times> error option) \<times> filesystem" where
  "file_Write path b fs =
     (let n = min (length b) (free fs);
          old = (case files fs path of None \<Rightarrow> [] | Some bs \<Rightarrow> bs)
      in ((n, if n < length b then Some WriteError else None),
          fs\<lparr>files := (files fs)(path \<mapsto> old @ take n b), free := free fs - n\<rparr>))"

subsection \<open>The codec\<close>

text \<open>The constants of main.go, lines 11-14: sizes in bytes.\<close>

definition stlHeaderSize :: nat where [simp]: "stlHeaderSize = 80"
definition stlCountSize :: nat where [simp]: "stlCountSize = 4"
definition stlFloatSize :: nat where [simp]: "stlFloatSize = 4"
definition stlTriangleSize :: nat where [simp]: "stlTriangleSize = 50"

text \<open>
  The slice expression \<^verbatim>\<open>bytes[lo:hi]\<close>, which panics unless \<open>lo \<le> hi \<le> len(bytes)\<close>
  (the buffers of this package have their capacity equal to their length).
\<close>

definition byteSlice :: "byte list \<Rightarrow> nat \<Rightarrow> nat \<Rightarrow> error + byte list" where
  "byteSlice bytes lo hi =
     (if lo \<le> hi \<and> hi \<le> length bytes then Inr (take (hi - lo) (drop lo bytes))
      else Inl SliceOutOfRange)"

text \<open>
  \<^verbatim>\<open>func triangleFrom(bytes []byte) Triangle\<close> (main.go, lines 186-199): \<open>log.Fatalf\<close>
  unless there are exactly 50 bytes; then for \<open>j\<close> from 0 to 3 and \<open>i\<close> from 0 to 2,
  \<^verbatim>\<open>offset := i*stlFloatSize + j*3*stlFloatSize\<close> and
  \<^verbatim>\<open>ps[j][i] = math.Float32frombits(uint32From(bytes[offset : offset+4]))\<close>; the result
  is \<^verbatim>\<open>Triangle{ps[0], ps[1], ps[2], ps[3]}\<close>. \<open>floatAt\<close> is the body of the inner
  loop, \<open>vecAt\<close> the inner loop for one \<open>j\<close>.
\<close>

definition floatAt :: "byte list \<Rightarrow> nat \<Rightarrow> nat \<Rightarrow> error + float32" where
  "floatAt bytes j i =
     (let offset = i * stlFloatSize + j * 3 * stlFloatSize
      in bind_err (byteSlice bytes offset (offset + 4)) (\<lambda>b.
         bind_err (uint32From b) (\<lambda>ui. Inr (Float32frombits ui))))"

definition vecAt :: "byte list \<Rightarrow> nat \<Rightarrow> error + vec3" where
  "vecAt bytes j =
     bind_err (floatAt bytes j 0) (\<lambda>x.
     bind_err (floatAt bytes j 1) (\<lambda>y.
     bind_err (floatAt bytes j 2) (\<lambda>z. Inr (Vec3 x y z))))"

definition triangleFrom :: "byte list \<Rightarrow> error + Triangle" where
  "triangleFrom bytes =
     (if length bytes \<noteq> stlTriangleSize then Inl Fatal
      else bind_err (vecAt bytes 0) (\<lambda>ps0.
           bind_err (vecAt bytes 1) (\<lambda>ps1.
           bind_err (vecAt bytes 2) (\<lambda>ps2.
           bind_err (vecAt bytes 3) (\<lambda>ps3.
             Inr \<lparr>Normal = ps0, P0 = ps1, P1 = ps2, P2 = ps3\<rparr>)))))"

text \<open>
  The zero value of \<open>Triangle\<close>, with which \<^verbatim>\<open>make([]Triangle, numTriangles)\<close> fills the
  new slice.
\<close>

definition zeroTriangle :: Triangle where
  "zeroTriangle =
     (let z = Vec3 (Float32frombits 0) (Float32frombits 0) (Float32frombits 0)
      in \<lparr>Normal = z, P0 = z, P1 = z, P2 = z\<rparr>)"

text \<open>
  \<^verbatim>\<open>make([]Triangle, n)\<close> (main.go, line 150). A \<open>Triangle\<close> is twelve \<open>float32\<close>,
  48 bytes, and the slice is allocated at once, all \<open>n\<close> elements. \<open>heap\<close> is the number
  of bytes that the Go runtime can still obtain for the process, \<open>None\<close> when memory is no
  constraint: an allocation within it yields \<open>n\<close> zero triangles, an allocation beyond it
  ends the process.
\<close>

definition fits :: "nat option \<Rightarrow> nat \<Rightarrow> bool" where
  "fits heap n = (case heap of None \<Rightarrow> True | Some h \<Rightarrow> 48 * n \<le> h)"

definition make_Triangles :: "nat option \<Rightarrow> nat \<Rightarrow> error + Triangle list" where
  "make_Triangles heap n = (if fits heap n then Inr (replicate n zeroTriangle) else Inl OutOfMemory)"

text \<open>
  The loop of \<open>ParseStlFile\<close> (main.go, lines 151-162), from the state in which the
  counter is \<open>i\<close> and the slice \<open>Triangles\<close> of the source is \<open>tris\<close>: each round
  reads 50 bytes into a fresh buffer, returns the error of
  \<open>Read\<close> or the error of a short read, and stores the decoded triangle at index \<open>i\<close>.
\<close>

function readTriangles :: "nat \<Rightarrow> nat \<Rightarrow> Triangle list \<Rightarrow> byte list \<Rightarrow> error + Triangle list" where
  "readTriangles i numTriangles tris reader =
     (if i < numTriangles then
        (case file_Read stlTriangleSize reader of
           ((buffer, n, Some err), reader') \<Rightarrow> Inl err
         | ((buffer, n, None), reader') \<Rightarrow>
             if n < stlTriangleSize
             then Inl (ErrorString ''could not read stl file, unexpected Triangle byte count'')
             else (case triangleFrom buffer of
                     Inl err \<Rightarrow> Inl err
                   | Inr t \<Rightarrow> readTriangles (i + 1) numTriangles (tris[i := t]) reader'))
      else Inr tris)"
  by pat_completeness auto
termination
  by (relation "measure (\<lambda>(i, numTriangles, tris, reader). numTriangles - i)") auto

declare readTriangles.simps [simp del]

text \<open>
  \<^verbatim>\<open>func ParseStlFile(filepath string) (*Model, error)\<close> (main.go, lines 119-166), run
  in a process with the memory \<open>heap\<close>. Every \<^verbatim>\<open>return nil, err\<close> is a result \<open>Inl\<close>,
  which holds no model; the only result with a model is the last line. The slice for all
  the declared triangles is made (line 150) as soon as the count is read, before the first
  record is read.
\<close>

definition ParseStlFile_mem :: "nat option \<Rightarrow> string \<Rightarrow> filesystem \<Rightarrow> error + Model" where
  "ParseStlFile_mem heap path fs =
     (case os_Open fs path of
        Inl err \<Rightarrow> Inl err
      | Inr reader \<Rightarrow>
         (case file_Read stlHeaderSize reader of
            ((buffer, n, Some err), reader) \<Rightarrow> Inl err
          | ((buffer, n, None), reader) \<Rightarrow>
              if n < stlHeaderSize
              then Inl (ErrorString ''could not read stl file header, unexpected header length'')
              else
               (case file_Read stlCountSize reader of
                  ((buffer, n, Some err), reader) \<Rightarrow> Inl err
                | ((buffer, n, None), reader) \<Rightarrow>
                    if n < stlCountSize
                    then Inl (ErrorString ''could not read stl file header, unexpected count length'')
                    else
                      bind_err (uint32From buffer) (\<lambda>numTriangles.
                      bind_err (make_Triangles heap (unat numTriangles)) (\<lambda>tris.
                      bind_err (readTriangles 0 (unat numTriangles) tris reader) (\<lambda>tris.
                        Inr \<lparr>filepath = path, Triangles = tris\<rparr>))))))"

text \<open>\<open>ParseStlFile\<close> in a process for which memory is no constraint.\<close>

definition ParseStlFile :: "string \<Rightarrow> filesystem \<Rightarrow> error + Model" where
  "ParseStlFile path fs = ParseStlFile_mem None path fs"

text \<open>
  \<^verbatim>\<open>for j, b := range bs { buffer[j+off] = b }\<close>, the way \<open>WriteToFile\<close> copies bytes
  into its buffers (the buffers are long enough for every index it uses).
\<close>

definition putBytes :: "nat \<Rightarrow> byte list \<Rightarrow> byte list \<Rightarrow> byte list" where
  "putBytes off bs buffer = fold (\<lambda>j buf. buf[j + off := bs ! j]) [0..<length bs] buffer"

text \<open>
  One of the four inner loops of \<open>WriteToFile\<close> (main.go, lines 78-105), for the vector
  stored from offset \<open>off\<close> (0, 12, 24 and 36 in the source):
  \<^verbatim>\<open>ui := math.Float32bits(v[i]); bs := bytesFrom(ui)\<close> and
  \<^verbatim>\<open>buffer[j+4*i+off] = b\<close>.
\<close>

definition putVec :: "nat \<Rightarrow> vec3 \<Rightarrow> byte list \<Rightarrow> byte list" where
  "putVec off v buffer =
     fold (\<lambda>i buf. putBytes (4 * i + off) (bytesFrom (Float32bits (idx v i))) buf) [0..<3] buffer"

definition fillRecord :: "Triangle \<Rightarrow> byte list \<Rightarrow> byte list" where
  "fillRecord t buffer =
     putVec 36 (P2 t) (putVec 24 (P1 t) (putVec 12 (P0 t) (putVec 0 (Normal t) buffer)))"

text \<open>
  The loop over the triangles (main.go, lines 77-113). The buffer of 50 bytes is made once
  before the loop and used again in every round.
\<close>

fun writeTriangles :: "Triangle list \<Rightarrow> byte list \<Rightarrow> string \<Rightarrow> filesystem \<Rightarrow> error option \<times> filesystem" where
  "writeTriangles [] buffer path fs = (None, fs)"
| "writeTriangles (t # ts) buffer path fs =
     (let buffer = fillRecord t buffer
      in case file_Write path buffer fs of
           ((n, Some err), fs') \<Rightarrow> (Some err, fs')
         | ((n, None), fs') \<Rightarrow>
             if n < stlTriangleSize then (Some (ErrorString ''could not write Triangle''), fs')
             else writeTriangles ts buffer path fs')"

text \<open>
  \<^verbatim>\<open>func (m *Model) WriteToFile(filepath string) error\<close> (main.go, lines 43-116): the
  returned error (\<open>None\<close> for \<open>nil\<close>) and the state of the files afterwards. The count is
  \<^verbatim>\<open>uint32(len(m.Triangles))\<close>: the length of the slice, an \<open>int\<close> of 64 bits,
  converted to 32 bits.
\<close>

definition WriteToFile :: "Model \<Rightarrow> string \<Rightarrow> filesystem \<Rightarrow> error option \<times> filesystem" where
  "WriteToFile m path fs =
     (case os_Create fs path of
        Inl err \<Rightarrow> (Some err, fs)
      | Inr fs \<Rightarrow>
         (let buffer = putBytes 0 (map of_char ''STL'') (replicate stlHeaderSize 0)
          in case file_Write path buffer fs of
               ((n, Some err), fs) \<Rightarrow> (Some err, fs)
             | ((n, None), fs) \<Rightarrow>
                 if n < stlHeaderSize
                 then (Some (ErrorString
                         ''could not write stl file header, unexpected header length''), fs)
                 else
                  (case file_Write path (bytesFrom (of_nat (length (Triangles m)))) fs of
                     ((n, Some err), fs) \<Rightarrow> (Some err, fs)
                   | ((n, None), fs) \<Rightarrow>
                       if n < stlCountSize
                       then (Some (ErrorString
                               ''could not write stl file header, unexpected Triangle count''), fs)
                       else writeTriangles (Triangles m) (replicate stlTriangleSize 0) path fs)))"

subsection \<open>The byte layout in the words of the specification\<close>

text \<open>
  This vocabulary is written from the description of the format, with no function of the
  code in it. A 32-bit number in little-endian order is its four digits in base 256, the
  least significant one first (\<open>le32\<close>), and \<open>le_nat\<close> is the number that a sequence
  of bytes denotes in this order. A 32-bit float is stored as its IEEE-754 bit pattern. The
  twelve floats of a record are the components of normal, p0, p1 and p2, in that order.
\<close>

definition le32 :: "uint32 \<Rightarrow> byte list" where
  "le32 u =
     [of_nat (unat u mod 256), of_nat (unat u div 256 mod 256),
      of_nat (unat u div 65536 mod 256), of_nat (unat u div 16777216 mod 256)]"


definition floats :: "Triangle \<Rightarrow> float32 list" where
  "floats t =
     [idx (Normal t) 0, idx (Normal t) 1, idx (Normal t) 2,
      idx (P0 t) 0, idx (P0 t) 1, idx (P0 t) 2,
      idx (P1 t) 0, idx (P1 t) 1, idx (P1 t) 2,
      idx (P2 t) 0, idx (P2 t) 1, idx (P2 t) 2]"

text \<open>
  The header is the ASCII characters \<open>S\<close>, \<open>T\<close>, \<open>L\<close> and 77 zero bytes; a Vector3 block
  is three little-endian floats; a record is the blocks of normal, p0, p1, p2 and two zero
  bytes; a file is the header, the count and the records.
\<close>

definition stlHeader :: "byte list" where
  "stlHeader = [0x53, 0x54, 0x4C] @ replicate 77 0"

definition encodeVec :: "vec3 \<Rightarrow> byte list" where
  "encodeVec v =
     le32 (Float32bits (idx v 0)) @ le32 (Float32bits (idx v 1)) @ le32 (Float32bits (idx v 2))"

definition encodeTriangle :: "Triangle \<Rightarrow> byte list" where
  "encodeTriangle t =
     encodeVec (Normal t) @ encodeVec (P0 t) @ encodeVec (P1 t) @ encodeVec (P2 t) @ [0, 0]"

definition encode :: "Triangle list \<Rightarrow> byte list" where
  "encode ts = stlHeader @ le32 (of_nat (length ts)) @ concat (map encodeTriangle ts)"

subsection \<open>Sample files\<close>

text \<open>
  A device with room for \<open>10 ^ 12\<close> bytes on which every path can be created; a file
  system holding a file of 83 bytes, a file that declares one triangle and holds 49
  bytes after the count, and a file of 84 bytes that declares \<open>2 ^ 32 - 1\<close> triangles; and
  a model of \<open>2 ^ 32\<close> triangles.
\<close>

definition big_disk :: filesystem where
  "big_disk = \<lparr>files = (\<lambda>path. None), writable = (\<lambda>path. True), free = 1000000000000\<rparr>"


definition big_mesh :: Model where
  "big_mesh = \<lparr>filepath = ''in.stl'', Triangles = replicate 4294967296 zeroTriangle\<rparr>"

subsection \<open>IEEE-754 arithmetic\<close>

text \<open>
  Every arithmetic operation computes the exact result on the values of its operands and
  rounds it to the format, to nearest with ties to even, each operation on its own (no
  fused multiply-add, as the Go compiler evaluates the expressions of this package on
  amd64). A NaN result is the quiet NaN with an empty payload: the properties below depend
  on no other bit of a NaN.

  \<open>bitlen n\<close> is the number of binary digits of \<open>n\<close>, \<open>ilog2 q\<close> the exponent of the
  largest power of 2 that is at most the positive number \<open>q\<close>, and \<open>rne q\<close> the integer
  nearest to \<open>q \<ge> 0\<close>, the even one of two that are equally near.
\<close>

fun bitlen :: "nat \<Rightarrow> nat" where
  "bitlen n = (if n = 0 then 0 else Suc (bitlen (n div 2)))"

declare bitlen.simps [simp del]

definition ilog2 :: "rat \<Rightarrow> int" where
  "ilog2 q =
     (if 1 \<le> q then int (bitlen (nat \<lfloor>q\<rfloor>)) - 1
      else - int (bitlen (nat (\<lceil>1 / q\<rceil> - 1))))"

definition rne :: "rat \<Rightarrow> nat" where
  "rne q =
     (let n = nat \<lfloor>q\<rfloor>; d = q - of_nat n
      in if d < 1 / 2 then n else if 1 / 2 < d then n + 1 else if even n then n else n + 1)"

text \<open>
  The exponent and fraction fields, read as one number, of the magnitude \<open>q \<ge> 0\<close> rounded
  to a format of \<open>fw\<close> fraction bits and \<open>ew\<close> exponent bits. With \<open>e\<close> the exponent of
  \<open>q\<close>, but at least the exponent of the subnormal numbers, \<open>q\<close> is rounded to a multiple
  \<open>n\<close> of \<open>2 ^ (e - fw)\<close>; since the fields of consecutive numbers of the format are
  consecutive integers, a carry of the rounding into the next exponent is in the sum, and
  a result beyond the largest finite number is the pattern of infinity.
\<close>

definition round_mag :: "nat \<Rightarrow> nat \<Rightarrow> rat \<Rightarrow> nat" where
  "round_mag fw ew q =
     (if q = 0 then 0
      else let emin = 1 - bias ew;
               e = max (ilog2 q) emin;
               n = rne (q / pow2 (e - int fw))
           in min (nat (e - emin) * 2 ^ fw + n) ((2 ^ ew - 1) * 2 ^ fw))"

definition fpround :: "nat \<Rightarrow> nat \<Rightarrow> fpval \<Rightarrow> nat" where
  "fpround fw ew v =
     (case v of
        NaN \<Rightarrow> (2 ^ ew - 1) * 2 ^ fw + 2 ^ (fw - 1)
      | Infty s \<Rightarrow> (if s then 2 ^ (fw + ew) else 0) + (2 ^ ew - 1) * 2 ^ fw
      | Fin s q \<Rightarrow> (if s then 2 ^ (fw + ew) else 0) + round_mag fw ew q)"

definition pack32 :: "fpval \<Rightarrow> float32" where
  "pack32 v = Float32frombits (of_nat (fpround 23 8 v))"

definition pack64 :: "fpval \<Rightarrow> float64" where
  "pack64 v = Float64frombits (of_nat (fpround 52 11 v))"

text \<open>The exact results: product, sum, difference and quotient of two values.\<close>

fun val_mul :: "fpval \<Rightarrow> fpval \<Rightarrow> fpval" where
  "val_mul NaN b = NaN"
| "val_mul a NaN = NaN"
| "val_mul (Infty s) (Infty s') = Infty (s \<noteq> s')"
| "val_mul (Infty s) (Fin s' q') = (if q' = 0 then NaN else Infty (s \<noteq> s'))"
| "val_mul (Fin s q) (Infty s') = (if q = 0 then NaN else Infty (s \<noteq> s'))"
| "val_mul (Fin s q) (Fin s' q') = Fin (s \<noteq> s') (q * q')"

text \<open>
  A sum that is exactly zero is \<open>+0\<close>, unless both operands are negative (then both are
  \<open>-0\<close>).
\<close>

fun val_add :: "fpval \<Rightarrow> fpval \<Rightarrow> fpval" where
  "val_add NaN b = NaN"
| "val_add a NaN = NaN"
| "val_add (Infty s) (Infty s') = (if s = s' then Infty s else NaN)"
| "val_add (Infty s) (Fin s' q') = Infty s"
| "val_add (Fin s q) (Infty s') = Infty s'"
| "val_add (Fin s q) (Fin s' q') =
     (let r = signed (Fin s q) + signed (Fin s' q')
      in if r = 0 then Fin (s \<and> s') 0 else Fin (r < 0) \<bar>r\<bar>)"

fun val_neg :: "fpval \<Rightarrow> fpval" where
  "val_neg NaN = NaN"
| "val_neg (Infty s) = Infty (\<not> s)"
| "val_neg (Fin s q) = Fin (\<not> s) q"

definition val_sub :: "fpval \<Rightarrow> fpval \<Rightarrow> fpval" where
  "val_sub a b = val_add a (val_neg b)"

fun val_div :: "fpval \<Rightarrow> fpval \<Rightarrow> fpval" where
  "val_div NaN b = NaN"
| "val_div a NaN = NaN"
| "val_div (Infty s) (Infty s') = NaN"
| "val_div (Infty s) (Fin s' q') = Infty (s \<noteq> s')"
| "val_div (Fin s q) (Infty s') = Fin (s \<noteq> s') 0"
| "val_div (Fin s q) (Fin s' q') =
     (if q' = 0 then (if q = 0 then NaN else Infty (s \<noteq> s')) else Fin (s \<noteq> s') (q / q'))"

text \<open>
  The Go operators \<^verbatim>\<open>*\<close>, \<^verbatim>\<open>+\<close>, \<^verbatim>\<open>-\<close> and \<^verbatim>\<open>/\<close> on \<open>float32\<close>, the conversions
  \<^verbatim>\<open>float64(x)\<close> and \<^verbatim>\<open>float32(d)\<close>, and the negation \<^verbatim>\<open>-x\<close>, which changes the
  sign bit.
\<close>

definition fmul :: "float32 \<Rightarrow> float32 \<Rightarrow> float32" where
  "fmul x y = pack32 (val_mul (decode32 x) (decode32 y))"

definition fadd :: "float32 \<Rightarrow> float32 \<Rightarrow> float32" where
  "fadd x y = pack32 (val_add (decode32 x) (decode32 y))"

definition fsub :: "float32 \<Rightarrow> float32 \<Rightarrow> float32" where
  "fsub x y = pack32 (val_sub (decode32 x) (decode32 y))"

definition fdiv :: "float32 \<Rightarrow> float32 \<Rightarrow> float32" where
  "fdiv x y = pack32 (val_div (decode32 x) (decode32 y))"

definition float64_of :: "float32 \<Rightarrow> float64" where
  "float64_of x = pack64 (decode32 x)"

definition float32_of :: "float64 \<Rightarrow> float32" where
  "float32_of d = pack32 (decode64 d)"

definition fneg :: "float32 \<Rightarrow> float32" where
  "fneg x = Float32frombits (Float32bits x XOR 0x80000000)"

subsection \<open>The command: geometry and the pass over the triangles\<close>

text \<open>
  \<^verbatim>\<open>func dot(a, b [3]float32) float32\<close>:
  \<^verbatim>\<open>return a[0]*b[0] + a[1]*b[1] + a[2]*b[2]\<close>.
\<close>

definition dot :: "vec3 \<Rightarrow> vec3 \<Rightarrow> float32" where
  "dot a b =
     fadd (fadd (fmul (idx a 0) (idx b 0)) (fmul (idx a 1) (idx b 1))) (fmul (idx a 2) (idx b 2))"

text \<open>
  \<^verbatim>\<open>func cross(a, b [3]float32) [3]float32\<close>:
  \<^verbatim>\<open>result[0] = a[1]*b[2] - b[1]*a[2]\<close>,
  \<^verbatim>\<open>result[1] = a[2]*b[0] - b[2]*a[0]\<close>,
  \<^verbatim>\<open>result[2] = a[0]*b[1] - b[0]*a[1]\<close>.
\<close>

definition cross :: "vec3 \<Rightarrow> vec3 \<Rightarrow> vec3" where
  "cross a b =
     Vec3 (fsub (fmul (idx a 1) (idx b 2)) (fmul (idx b 1) (idx a 2)))
          (fsub (fmul (idx a 2) (idx b 0)) (fmul (idx b 2) (idx a 0)))
          (fsub (fmul (idx a 0) (idx b 1)) (fmul (idx b 0) (idx a 1)))"

text \<open>
  \<^verbatim>\<open>func normalize(a [3]float32) [3]float32\<close>:
  \<^verbatim>\<open>l := float32(math.Sqrt(float64(dot(a, a))))\<close>, \<^verbatim>\<open>il := 1.0 / l\<close>, and every
  component \<open>c\<close> of \<open>a\<close> becomes \<^verbatim>\<open>c * il\<close>. \<open>math.Sqrt\<close> belongs to the Go library,
  not to this repository: it is the parameter \<open>Sqrt\<close>.
\<close>

definition normalize :: "(float64 \<Rightarrow> float64) \<Rightarrow> vec3 \<Rightarrow> vec3" where
  "normalize Sqrt a =
     (let l = float32_of (Sqrt (float64_of (dot a a)));
          il = fdiv f32_one l
      in Vec3 (fmul (idx a 0) il) (fmul (idx a 1) il) (fmul (idx a 2) il))"

text \<open>
  The body of the loop of \<open>main\<close> (lines 37-43 of the command). \<open>correctedNormal\<close> is the
  value of \<open>n1\<close> when it is passed to \<open>normalize\<close>:
  \<^verbatim>\<open>n0 := t.Normal\<close>, \<^verbatim>\<open>n1 := cross(t.P0, t.P1)\<close>,
  \<^verbatim>\<open>if dot(n0, n1) > 0 { n1 = cross(t.P1, t.P0) }\<close>; then
  \<^verbatim>\<open>t.Normal = normalize(n1)\<close>.
\<close>

definition correctedNormal :: "Triangle \<Rightarrow> vec3" where
  "correctedNormal t =
     (let n0 = Normal t;
          n1 = cross (P0 t) (P1 t)
      in if fgt (dot n0 n1) f32_zero then cross (P1 t) (P0 t) else n1)"

definition fixNormal :: "(float64 \<Rightarrow> float64) \<Rightarrow> Triangle \<Rightarrow> Triangle" where
  "fixNormal Sqrt t = t\<lparr>Normal := normalize Sqrt (correctedNormal t)\<rparr>"

text \<open>
  The loop \<^verbatim>\<open>for i, t := range m.Triangles\<close> of \<open>main\<close> (lines 33-44), from index \<open>i\<close>:
  \<^verbatim>\<open>if i > 0 { break }\<close>, otherwise the body and \<^verbatim>\<open>m.Triangles[i] = t\<close>.
\<close>

function mainLoop :: "(float64 \<Rightarrow> float64) \<Rightarrow> nat \<Rightarrow> Triangle list \<Rightarrow> Triangle list" where
  "mainLoop Sqrt i ts =
     (if i < length ts then
        (if i > 0 then ts
         else mainLoop Sqrt (i + 1) (ts[i := fixNormal Sqrt (ts ! i)]))
      else ts)"
  by pat_completeness auto
termination
  by (relation "measure (\<lambda>(Sqrt, i, ts). length ts - i)") auto

declare mainLoop.simps [simp del]

subsection \<open>Sample triangles\<close>

text \<open>
  The number \<open>-1\<close>, and the triangle of the end-to-end scenario of the specification:
  normal \<open>(0,0,1)\<close>, vertices \<open>(1,0,0)\<close>, \<open>(0,1,0)\<close>, \<open>(0,0,0)\<close>.
\<close>

definition f32_minus_one :: float32 where "f32_minus_one = Float32frombits 0xBF800000"

definition scenario_triangle :: Triangle where
  "scenario_triangle =
     \<lparr>Normal = Vec3 f32_zero f32_zero f32_one,
      P0 = Vec3 f32_one f32_zero f32_zero,
      P1 = Vec3 f32_zero f32_one f32_zero,
      P2 = Vec3 f32_zero f32_zero f32_zero\<rparr>"

section \<open>Properties\<close>

subsection \<open>The little-endian helpers\<close>

lemma fold_upt4: "fold f [0..<4] x = f 3 (f 2 (f 1 (f 0 x)))"
proof -
  have "[0..<4] = [0, 1, 2, 3::nat]"
    by (simp add: upt_rec)
  then show ?thesis by simp
qed

lemma ucast_low_byte: "(ucast (w AND 0xff :: uint32) :: byte) = ucast w"
proof -
  have "w AND 0xff = take_bit 8 w"
    by (simp add: take_bit_eq_mask mask_eq_exp_minus_1)
  then show ?thesis
    by (simp only:) (rule bit_word_eqI, simp add: bit_simps)
qed

lemma replicate4: "replicate 4 x = [x, x, x, x]"
  by (simp add: numeral_eq_Suc)

lemma bytesFrom_eq:
  "bytesFrom u = [ucast u, ucast (drop_bit 8 u), ucast (drop_bit 16 u), ucast (drop_bit 24 u)]"
  by (simp add: bytesFrom_def fold_upt4 ucast_low_byte replicate4)

lemma length_bytesFrom: "length (bytesFrom u) = 4"
  by (simp add: bytesFrom_eq)

lemma length4E: "length bs = 4 \<Longrightarrow> \<exists>a b c d. bs = [a, b, c, d]"
  by (auto simp: length_Suc_conv numeral_eq_Suc)

lemma uint32From_eq:
  "uint32From [a, b, c, d] =
     Inr ((((0 OR ucast a) OR push_bit 8 (ucast b)) OR push_bit 16 (ucast c))
            OR push_bit 24 (ucast d))"
  by (simp add: uint32From_def fold_upt4)

lemma join_split:
  "(((0 OR ucast (ucast u :: byte)) OR push_bit 8 (ucast (ucast (drop_bit 8 u) :: byte)))
      OR push_bit 16 (ucast (ucast (drop_bit 16 u) :: byte)))
      OR push_bit 24 (ucast (ucast (drop_bit 24 u) :: byte)) = (u :: uint32)"
  apply (rule bit_word_eqI)
  subgoal for n
    by (cases "n < 8"; cases "n < 16"; cases "n < 24"; auto simp add: bit_simps)
  done

lemma split_join:
  fixes a b c d :: byte
  defines "u \<equiv> ((((0 OR ucast a) OR push_bit 8 (ucast b)) OR push_bit 16 (ucast c))
                   OR push_bit 24 (ucast d) :: uint32)"
  shows "ucast u = a" "ucast (drop_bit 8 u) = b" "ucast (drop_bit 16 u) = c"
    "ucast (drop_bit 24 u) = d"
  unfolding u_def
  by (rule bit_word_eqI; auto simp: bit_simps dest: bit_imp_le_length)+

lemma uint32From_bytesFrom: "uint32From (bytesFrom u) = Inr u"
  by (simp only: bytesFrom_eq uint32From_eq join_split)

lemma bytesFrom_uint32From:
  assumes "length bs = 4"
  shows "\<exists>v. uint32From bs = Inr v \<and> bytesFrom v = bs"
proof -
  from assms obtain a b c d where bs: "bs = [a, b, c, d]"
    using length4E by blast
  let ?v = "(((0 OR ucast a) OR push_bit 8 (ucast b)) OR push_bit 16 (ucast c))
              OR push_bit 24 (ucast d) :: uint32"
  have "bytesFrom ?v = bs"
    by (simp only: bs bytesFrom_eq split_join)
  moreover have "uint32From bs = Inr ?v"
    by (simp only: bs uint32From_eq)
  ultimately show ?thesis by blast
qed

lemma byte_of_digit: "(ucast (drop_bit k (u :: uint32)) :: byte) = of_nat (unat u div 2 ^ k mod 256)"
proof -
  have "(ucast (drop_bit k u) :: byte) = of_nat (unat (drop_bit k u))"
    by (simp only: of_nat_unat)
  also have "\<dots> = of_nat (unat u div 2 ^ k)"
    by (subst unat_drop_bit_eq) (simp add: drop_bit_eq_div)
  also have "\<dots> = of_nat (unat u div 2 ^ k mod 256)"
    by (simp add: word_unat_eq_iff unat_of_nat)
  finally show ?thesis .
qed

lemma bytesFrom_le32: "bytesFrom u = le32 u"
  using byte_of_digit [of 0 u] byte_of_digit [of 8 u] byte_of_digit [of 16 u]
    byte_of_digit [of 24 u]
  by (simp add: bytesFrom_eq le32_def)

lemma length_le32 [simp]: "length (le32 u) = 4"
  by (simp add: le32_def)

lemma uint32From_le32: "uint32From (le32 u) = Inr u"
  using uint32From_bytesFrom [of u] by (simp add: bytesFrom_le32)




text \<open>
  Claim C10. \<open>bytesFrom\<close> always yields exactly 4 bytes, byte \<open>i\<close> holding bits
  \<open>8i .. 8i+7\<close> of the argument (least significant byte first); \<open>uint32From\<close> undoes
  \<open>bytesFrom\<close> on every 32-bit value, and \<open>bytesFrom\<close> undoes \<open>uint32From\<close> on every
  sequence of 4 bytes (on which \<open>uint32From\<close> does not stop the process).
\<close>

theorem bytesFrom_uint32From_inverse:
  "length (bytesFrom u) = 4
   \<and> (\<forall>i<4. bytesFrom u ! i = ucast (drop_bit (8 * i) u))
   \<and> uint32From (bytesFrom u) = Inr u
   \<and> (length bs = 4 \<longrightarrow> (\<exists>v. uint32From bs = Inr v \<and> bytesFrom v = bs))"
proof -
  have "bytesFrom u ! i = ucast (drop_bit (8 * i) u)" if "i < 4" for i
  proof -
    from that have "i = 0 \<or> i = 1 \<or> i = 2 \<or> i = 3" by arith
    then show ?thesis by (auto simp: bytesFrom_eq)
  qed
  then show ?thesis
    using length_bytesFrom uint32From_bytesFrom bytesFrom_uint32From by blast
qed

theorem bytesFrom_uint32From_inverse_witness:
  "length [0x01, 0x02, 0x03, 0x04 :: byte] = 4
   \<and> (\<exists>v. uint32From [0x01, 0x02, 0x03, 0x04] = Inr v \<and> bytesFrom v = [0x01, 0x02, 0x03, 0x04])
   \<and> (3 :: nat) < 4
   \<and> bytesFrom 0x04030201 ! 3 = 0x04
   \<and> uint32From (bytesFrom 0x04030201) = Inr 0x04030201"
  using bytesFrom_uint32From_inverse [of "0x04030201" "[0x01, 0x02, 0x03, 0x04]"]
  by (simp add: drop_bit_eq_div)

subsection \<open>The bounding box\<close>

lemma bind_err_simps [simp]: "bind_err (Inr x) f = f x" "bind_err (Inl e) f = Inl e"
  by (simp_all add: bind_err_def)

lemma minAxis_eq:
  "minAxis i t mn = Inr (upd mn i (fold fmin [idx (P0 t) i, idx (P1 t) i, idx (P2 t) i] (idx mn i)))"
  by (simp add: minAxis_def)

lemma maxAxis_eq:
  "maxAxis i t mx = Inr (upd mx i (fold fmax [idx (P0 t) i, idx (P1 t) i, idx (P2 t) i] (idx mx i)))"
  by (simp add: maxAxis_def)

lemma bboxStep_eq:
  "bboxStep t (mn, mx) =
     Inr (Vec3 (fold fmin (coords 0 [t]) (idx mn 0)) (fold fmin (coords 1 [t]) (idx mn 1))
               (fold fmin (coords 2 [t]) (idx mn 2)),
          Vec3 (fold fmax (coords 0 [t]) (idx mx 0)) (fold fmax (coords 1 [t]) (idx mx 1))
               (fold fmax (coords 2 [t]) (idx mx 2)))"
  by (cases mn; cases mx) (simp add: bboxStep_def minAxis_eq maxAxis_eq coords_def)

lemma coords_Cons: "coords i (t # ts) = coords i [t] @ coords i ts"
  by (simp add: coords_def)

lemma bboxLoop_eq:
  "bboxLoop ts (mn, mx) =
     Inr (Vec3 (fold fmin (coords 0 ts) (idx mn 0)) (fold fmin (coords 1 ts) (idx mn 1))
               (fold fmin (coords 2 ts) (idx mn 2)),
          Vec3 (fold fmax (coords 0 ts) (idx mx 0)) (fold fmax (coords 1 ts) (idx mx 1))
               (fold fmax (coords 2 ts) (idx mx 2)))"
proof (induction ts arbitrary: mn mx)
  case Nil
  then show ?case by (cases mn; cases mx) (simp add: coords_def)
next
  case (Cons t ts)
  show ?case
    by (simp only: bboxLoop.simps bboxStep_eq bind_err_simps Cons.IH coords_Cons [of _ t ts] fold_append o_apply idx.simps)
      simp
qed

lemma BoundingBox_eq:
  "BoundingBox m =
     (case Triangles m of
        [] \<Rightarrow> Inl (IndexOutOfRange 0 0)
      | t0 # _ \<Rightarrow>
          Inr (Vec3 (fold fmin (coords 0 (Triangles m)) (idx (P0 t0) 0))
                    (fold fmin (coords 1 (Triangles m)) (idx (P0 t0) 1))
                    (fold fmin (coords 2 (Triangles m)) (idx (P0 t0) 2)),
               Vec3 (fold fmax (coords 0 (Triangles m)) (idx (P0 t0) 0))
                    (fold fmax (coords 1 (Triangles m)) (idx (P0 t0) 1))
                    (fold fmax (coords 2 (Triangles m)) (idx (P0 t0) 2))))"
  by (simp add: BoundingBox_def bboxLoop_eq split: list.split)

lemma fle_refl: "\<not> isNaN x \<Longrightarrow> fle x x"
  by (simp add: fle_def val_eq_def isNaN_def)

lemma fle_trans: "fle x y \<Longrightarrow> fle y z \<Longrightarrow> fle x z"
  by (auto simp: fle_def val_lt_def val_eq_def)

lemma flt_fle: "flt y x \<Longrightarrow> fle y x"
  by (simp add: fle_def flt_def)

lemma fgt_fle: "fgt y x \<Longrightarrow> fle x y"
  by (simp add: fle_def fgt_def)

lemma not_flt_fle: "\<not> isNaN x \<Longrightarrow> \<not> isNaN y \<Longrightarrow> \<not> flt y x \<Longrightarrow> fle x y"
  by (auto simp: fle_def flt_def val_lt_def val_eq_def isNaN_def)

lemma not_fgt_fle: "\<not> isNaN x \<Longrightarrow> \<not> isNaN y \<Longrightarrow> \<not> fgt y x \<Longrightarrow> fle y x"
  by (auto simp: fle_def fgt_def val_lt_def val_eq_def isNaN_def)

lemma fmin_props:
  assumes "\<not> isNaN x" "\<not> isNaN y"
  shows "fmin y x \<in> {x, y}" "fle (fmin y x) x" "fle (fmin y x) y"
  using assms by (auto simp: fmin_def fle_refl flt_fle not_flt_fle)

lemma fmax_props:
  assumes "\<not> isNaN x" "\<not> isNaN y"
  shows "fmax y x \<in> {x, y}" "fle x (fmax y x)" "fle y (fmax y x)"
  using assms by (auto simp: fmax_def fle_refl fgt_fle not_fgt_fle)

lemma fold_fmin_least:
  "\<forall>c\<in>set (x # xs). \<not> isNaN c \<Longrightarrow> is_least (fold fmin xs x) (x # xs)"
proof (induction xs arbitrary: x)
  case Nil
  then show ?case by (simp add: is_least_def fle_refl)
next
  case (Cons y ys)
  from Cons.prems have nx: "\<not> isNaN x" and ny: "\<not> isNaN y" by simp_all
  let ?x' = "fmin y x"
  from fmin_props [OF nx ny] Cons.prems have "\<forall>c\<in>set (?x' # ys). \<not> isNaN c"
    by auto
  then have least: "is_least (fold fmin ys ?x') (?x' # ys)"
    by (rule Cons.IH)
  then have le': "fle (fold fmin ys ?x') ?x'"
    by (simp add: is_least_def)
  have "fle (fold fmin ys ?x') x" "fle (fold fmin ys ?x') y"
    using le' fmin_props(2,3) [OF nx ny] fle_trans by blast+
  moreover have "fold fmin ys ?x' \<in> set (x # y # ys)"
    using least fmin_props(1) [OF nx ny] by (auto simp: is_least_def)
  ultimately show ?case
    using least by (simp add: is_least_def)
qed

lemma fold_fmax_greatest:
  "\<forall>c\<in>set (x # xs). \<not> isNaN c \<Longrightarrow> is_greatest (fold fmax xs x) (x # xs)"
proof (induction xs arbitrary: x)
  case Nil
  then show ?case by (simp add: is_greatest_def fle_refl)
next
  case (Cons y ys)
  from Cons.prems have nx: "\<not> isNaN x" and ny: "\<not> isNaN y" by simp_all
  let ?x' = "fmax y x"
  from fmax_props [OF nx ny] Cons.prems have "\<forall>c\<in>set (?x' # ys). \<not> isNaN c"
    by auto
  then have greatest: "is_greatest (fold fmax ys ?x') (?x' # ys)"
    by (rule Cons.IH)
  then have le': "fle ?x' (fold fmax ys ?x')"
    by (simp add: is_greatest_def)
  have "fle x (fold fmax ys ?x')" "fle y (fold fmax ys ?x')"
    using le' fmax_props(2,3) [OF nx ny] fle_trans by blast+
  moreover have "fold fmax ys ?x' \<in> set (x # y # ys)"
    using greatest fmax_props(1) [OF nx ny] by (auto simp: is_greatest_def)
  ultimately show ?case
    using greatest by (simp add: is_greatest_def)
qed

lemma coords_hd: "coords i (t # ts) = idx (P0 t) i # idx (P1 t) i # idx (P2 t) i # coords i ts"
  by (simp add: coords_def)

lemma least_coords:
  assumes "ts = t0 # rest" "\<forall>c\<in>set (coords i ts). \<not> isNaN c"
  shows "is_least (fold fmin (coords i ts) (idx (P0 t0) i)) (coords i ts)"
proof -
  let ?x = "idx (P0 t0) i"
  have mem: "?x \<in> set (coords i ts)"
    by (simp add: assms(1) coords_hd)
  with assms(2) have "\<forall>c\<in>set (?x # coords i ts). \<not> isNaN c" by simp
  then have "is_least (fold fmin (coords i ts) ?x) (?x # coords i ts)"
    by (rule fold_fmin_least)
  with mem show ?thesis by (auto simp: is_least_def)
qed

lemma greatest_coords:
  assumes "ts = t0 # rest" "\<forall>c\<in>set (coords i ts). \<not> isNaN c"
  shows "is_greatest (fold fmax (coords i ts) (idx (P0 t0) i)) (coords i ts)"
proof -
  let ?x = "idx (P0 t0) i"
  have mem: "?x \<in> set (coords i ts)"
    by (simp add: assms(1) coords_hd)
  with assms(2) have "\<forall>c\<in>set (?x # coords i ts). \<not> isNaN c" by simp
  then have "is_greatest (fold fmax (coords i ts) ?x) (?x # coords i ts)"
    by (rule fold_fmax_greatest)
  with mem show ?thesis by (auto simp: is_greatest_def)
qed

lemma coords_vertices:
  "map vertices ts' = map vertices ts \<Longrightarrow> coords i ts' = coords i ts"
proof (induction ts arbitrary: ts')
  case Nil
  then show ?case by (simp add: coords_def)
next
  case (Cons t ts)
  then obtain t' rest where ts': "ts' = t' # rest" by (cases ts') auto
  with Cons.prems have v: "vertices t' = vertices t" and r: "map vertices rest = map vertices ts"
    by simp_all
  from v have "P0 t' = P0 t" "P1 t' = P1 t" "P2 t' = P2 t"
    by (simp_all add: vertices_def)
  moreover from r have "coords i rest = coords i ts"
    by (rule Cons.IH)
  ultimately show ?case
    by (simp add: ts' coords_hd)
qed

lemma BoundingBox_vertices:
  assumes "map vertices (Triangles m') = map vertices (Triangles m)"
  shows "BoundingBox m' = BoundingBox m"
proof (cases "Triangles m")
  case Nil
  with assms show ?thesis by (simp add: BoundingBox_eq)
next
  case (Cons t ts)
  with assms obtain t' rest where ts': "Triangles m' = t' # rest" by (cases "Triangles m'") auto
  with Cons assms have "P0 t' = P0 t" by (simp add: vertices_def)
  moreover have "coords i (Triangles m') = coords i (Triangles m)" for i
    using assms by (rule coords_vertices)
  ultimately show ?thesis
    by (simp add: BoundingBox_eq Cons ts')
qed

text \<open>
  Claim C4, as amended. For every model with at least one triangle and no NaN among its
  vertex coordinates, \<open>BoundingBox\<close> returns corners \<open>mn\<close> and \<open>mx\<close> such that on every
  axis the component of \<open>mn\<close> is the minimum, and the component of \<open>mx\<close> the maximum, of
  the coordinates on that axis of all vertices \<open>P0\<close>, \<open>P1\<close>, \<open>P2\<close> of all triangles
  (it is one of them, and below, respectively above, all of them in the order of \<^verbatim>\<open><=\<close>);
  and every model with the same vertices, whatever its normals, has the same box.
\<close>

theorem BoundingBox_min_max:
  assumes "Triangles m \<noteq> []"
    and "\<forall>i<3. \<forall>c\<in>set (coords i (Triangles m)). \<not> isNaN c"
  shows "\<exists>mn mx. BoundingBox m = Inr (mn, mx)
           \<and> (\<forall>i<3. is_least (idx mn i) (coords i (Triangles m))
                    \<and> is_greatest (idx mx i) (coords i (Triangles m)))
           \<and> (\<forall>m'. map vertices (Triangles m') = map vertices (Triangles m)
                    \<longrightarrow> BoundingBox m' = Inr (mn, mx))"
proof -
  from assms(1) obtain t0 rest where ts: "Triangles m = t0 # rest"
    by (cases "Triangles m") auto
  let ?mn = "Vec3 (fold fmin (coords 0 (Triangles m)) (idx (P0 t0) 0))
                    (fold fmin (coords 1 (Triangles m)) (idx (P0 t0) 1))
                    (fold fmin (coords 2 (Triangles m)) (idx (P0 t0) 2))"
  let ?mx = "Vec3 (fold fmax (coords 0 (Triangles m)) (idx (P0 t0) 0))
                    (fold fmax (coords 1 (Triangles m)) (idx (P0 t0) 1))
                    (fold fmax (coords 2 (Triangles m)) (idx (P0 t0) 2))"
  have bb: "BoundingBox m = Inr (?mn, ?mx)"
    by (simp only: BoundingBox_eq ts list.case)
  have "is_least (idx ?mn i) (coords i (Triangles m))
      \<and> is_greatest (idx ?mx i) (coords i (Triangles m))" if "i < 3" for i
  proof -
    from that assms(2) have nan: "\<forall>c\<in>set (coords i (Triangles m)). \<not> isNaN c" by simp
    from that have "i = 0 \<or> i = 1 \<or> i = 2" by arith
    then show ?thesis
      using least_coords [OF ts nan] greatest_coords [OF ts nan] by auto
  qed
  moreover have "BoundingBox m' = Inr (?mn, ?mx)"
    if "map vertices (Triangles m') = map vertices (Triangles m)" for m'
    using BoundingBox_vertices [OF that] bb by simp
  ultimately show ?thesis using bb by blast
qed

text \<open>
  Claim C9. On a model with at least one triangle \<open>BoundingBox\<close> returns its two corners:
  neither \<^verbatim>\<open>m.Triangles[0]\<close> nor \<^verbatim>\<open>xs[0]\<close> in \<open>minimum\<close> and \<open>maximum\<close>, which are
  called with four numbers, is out of range. On a model without triangles the first
  access \<^verbatim>\<open>m.Triangles[0]\<close> panics with index 0 out of range for length 0.
\<close>

theorem BoundingBox_total_iff:
  "(Triangles m \<noteq> [] \<longrightarrow> (\<exists>mn mx. BoundingBox m = Inr (mn, mx)))
   \<and> (Triangles m = [] \<longrightarrow> BoundingBox m = Inl (IndexOutOfRange 0 0))"
  by (simp add: BoundingBox_eq split: list.split)

lemma decode_consts:
  "decode32 f32_zero = Fin False 0"
  "decode32 f32_one = Fin False 1"
  "decode32 f32_two = Fin False 2"
  "decode32 f32_nan = NaN"
  by (simp_all add: f32_zero_def f32_one_def f32_two_def f32_nan_def decode32_def decode_def pow2_def bias_def)

lemma cmp_consts:
  "\<not> flt f32_nan x" "\<not> flt x f32_nan" "\<not> fgt f32_nan x" "\<not> fgt x f32_nan"
  "\<not> fle f32_nan x" "\<not> fle x f32_nan"
  "\<not> flt f32_zero f32_zero" "flt f32_zero f32_one" "\<not> flt f32_one f32_zero" "\<not> flt f32_one f32_one"
  "flt f32_one f32_two" "\<not> flt f32_two f32_one" "\<not> flt f32_two f32_two"
  "flt f32_zero f32_two" "\<not> flt f32_two f32_zero"
  by (simp_all add: flt_def fgt_def fle_def val_lt_def val_eq_def decode_consts)

lemma fgt_flt: "fgt x y = flt y x"
  by (simp add: fgt_def flt_def)

lemma bb_nan: "BoundingBox nan_mesh = Inr (Vec3 f32_nan f32_zero f32_zero, Vec3 f32_nan f32_one f32_zero)"
  by (simp add: BoundingBox_def nan_mesh_def bboxStep_def minAxis_def maxAxis_def fmin_def fmax_def fgt_flt cmp_consts)

text \<open>
  Claim C4 as stated fails on a model with NaN coordinates. With vertices
  \<open>(NaN,0,0)\<close>, \<open>(1,NaN,0)\<close>, \<open>(2,1,0)\<close> the minimum corner is \<open>(NaN,0,0)\<close>: on the
  first axis the NaN of \<^verbatim>\<open>m.Triangles[0].P0\<close> is never replaced, since no number compares
  less than NaN, and on the second axis the NaN of \<open>P1\<close> is skipped; neither component is
  below all coordinates of its axis.
\<close>

theorem BoundingBox_NaN_counterexample:
  "Triangles nan_mesh \<noteq> []
   \<and> BoundingBox nan_mesh = Inr (Vec3 f32_nan f32_zero f32_zero, Vec3 f32_nan f32_one f32_zero)
   \<and> \<not> is_least f32_nan (coords 0 (Triangles nan_mesh))
   \<and> \<not> is_least f32_zero (coords 1 (Triangles nan_mesh))"
  by (simp add: bb_nan) (auto simp add: nan_mesh_def is_least_def coords_def cmp_consts)

lemma bb_tri:
  "BoundingBox tri_mesh = Inr (Vec3 f32_zero f32_zero f32_zero, Vec3 f32_one f32_one f32_zero)"
  by (simp add: BoundingBox_def tri_mesh_def bboxStep_def minAxis_def maxAxis_def
      fmin_def fmax_def fgt_flt cmp_consts)

theorem BoundingBox_min_max_witness:
  "Triangles tri_mesh \<noteq> []
   \<and> BoundingBox tri_mesh = Inr (Vec3 f32_zero f32_zero f32_zero, Vec3 f32_one f32_one f32_zero)
   \<and> is_least f32_zero (coords 0 (Triangles tri_mesh))
   \<and> is_greatest f32_one (coords 1 (Triangles tri_mesh))"
proof -
  have h1: "Triangles tri_mesh \<noteq> []"
    by (simp add: tri_mesh_def)
  have h2: "\<forall>i<3. \<forall>c\<in>set (coords i (Triangles tri_mesh)). \<not> isNaN c"
    by (auto simp: tri_mesh_def coords_def isNaN_def decode_consts)
  from BoundingBox_min_max [OF h1 h2] obtain mn mx
    where bb: "BoundingBox tri_mesh = Inr (mn, mx)"
      and ex: "\<forall>i<3. is_least (idx mn i) (coords i (Triangles tri_mesh))
                    \<and> is_greatest (idx mx i) (coords i (Triangles tri_mesh))"
    by blast
  from bb have mn: "mn = Vec3 f32_zero f32_zero f32_zero" and mx: "mx = Vec3 f32_one f32_one f32_zero"
    by (simp_all add: bb_tri)
  from ex have "is_least (idx mn 0) (coords 0 (Triangles tri_mesh))"
    and "is_greatest (idx mx 1) (coords 1 (Triangles tri_mesh))"
    by simp_all
  then show ?thesis
    using h1 by (simp add: mn mx bb_tri)
qed

theorem BoundingBox_total_iff_witness:
  "Triangles tri_mesh \<noteq> []
   \<and> (\<exists>mn mx. BoundingBox tri_mesh = Inr (mn, mx))
   \<and> Triangles empty_mesh = []
   \<and> BoundingBox empty_mesh = Inl (IndexOutOfRange 0 0)"
  using BoundingBox_total_iff [of tri_mesh] BoundingBox_total_iff [of empty_mesh]
  by (simp add: tri_mesh_def empty_mesh_def)

subsection \<open>Writing\<close>

lemma putBytes_snoc: "putBytes off (bs @ [b]) buffer = (putBytes off bs buffer)[length bs + off := b]"
proof -
  have "fold (\<lambda>j buf. buf[j + off := (bs @ [b]) ! j]) [0..<length bs] buffer
      = fold (\<lambda>j buf. buf[j + off := bs ! j]) [0..<length bs] buffer"
    by (rule fold_cong) (simp_all add: nth_append)
  then show ?thesis
    by (simp add: putBytes_def)
qed

lemma putBytes_eq:
  "off + length bs \<le> length buffer \<Longrightarrow>
     putBytes off bs buffer = take off buffer @ bs @ drop (off + length bs) buffer"
proof (induction bs rule: rev_induct)
  case Nil
  then show ?case by (simp add: putBytes_def)
next
  case (snoc b bs)
  then have le: "off + length bs < length buffer" by simp
  then have d: "drop (off + length bs) buffer
      = buffer ! (off + length bs) # drop (Suc (off + length bs)) buffer"
    by (simp add: Cons_nth_drop_Suc)
  from snoc have "putBytes off bs buffer = take off buffer @ bs @ drop (off + length bs) buffer"
    by simp
  then show ?case
    using le by (simp add: putBytes_snoc list_update_append d add.commute)
qed

lemma length_encodeVec [simp]: "length (encodeVec v) = 12"
  by (simp add: encodeVec_def)

lemma length_encodeTriangle [simp]: "length (encodeTriangle t) = 50"
  by (simp add: encodeTriangle_def)

lemma fold_upt3: "fold f [0..<3] x = f 2 (f 1 (f 0 x))"
proof -
  have "[0..<3] = [0, 1, 2::nat]"
    by (simp add: upt_rec)
  then show ?thesis by simp
qed

lemma putVec_eq:
  assumes "off + 12 \<le> length buffer"
  shows "putVec off v buffer = take off buffer @ encodeVec v @ drop (off + 12) buffer"
  using assms
  by (simp add: putVec_def fold_upt3 putBytes_eq bytesFrom_le32 encodeVec_def add.commute
      min_def)

lemma fillRecord_eq:
  assumes "length buffer = 50" "drop 48 buffer = [0, 0]"
  shows "fillRecord t buffer = encodeTriangle t"
  using assms by (simp add: fillRecord_def putVec_eq encodeTriangle_def)

lemma fillRecord_replicate: "fillRecord t (replicate 50 0) = encodeTriangle t"
  by (rule fillRecord_eq) (simp_all add: numeral_eq_Suc)

lemma fillRecord_again: "fillRecord t (encodeTriangle t') = encodeTriangle t"
  by (rule fillRecord_eq) (simp_all add: encodeTriangle_def)

lemma file_Write_ok:
  assumes "length b \<le> fr"
  shows "file_Write path b \<lparr>files = f, writable = w, free = fr\<rparr> =
           ((length b, None),
            \<lparr>files = f(path \<mapsto> (case f path of None \<Rightarrow> [] | Some bs \<Rightarrow> bs) @ b),
             writable = w, free = fr - length b\<rparr>)"
  using assms by (simp add: file_Write_def min_def Let_def)

lemma file_Write_short:
  assumes "free fs < length b"
  shows "\<exists>n fs'. file_Write path b fs = ((n, Some WriteError), fs')"
  using assms by (simp add: file_Write_def min_def Let_def)

lemma writeTriangles_ok:
  assumes "buffer = replicate 50 0 \<or> (\<exists>t'. buffer = encodeTriangle t')"
    and "50 * length ts \<le> fr" and "f path = Some old"
  shows "writeTriangles ts buffer path \<lparr>files = f, writable = w, free = fr\<rparr> =
           (None, \<lparr>files = f(path \<mapsto> old @ concat (map encodeTriangle ts)),
                   writable = w, free = fr - 50 * length ts\<rparr>)"
  using assms
proof (induction ts arbitrary: buffer f fr old)
  case Nil
  then show ?case by (simp add: map_upd_triv)
next
  case (Cons t ts)
  from Cons.prems(1) have fill: "fillRecord t buffer = encodeTriangle t"
    by (auto simp: fillRecord_replicate fillRecord_again)
  let ?f = "f(path \<mapsto> old @ encodeTriangle t)"
  from Cons.prems have w: "file_Write path (encodeTriangle t) \<lparr>files = f, writable = w, free = fr\<rparr>
      = ((50, None), \<lparr>files = ?f, writable = w, free = fr - 50\<rparr>)"
    by (simp add: file_Write_ok)
  have "writeTriangles ts (encodeTriangle t) path \<lparr>files = ?f, writable = w, free = fr - 50\<rparr> =
          (None, \<lparr>files = ?f(path \<mapsto> (old @ encodeTriangle t) @ concat (map encodeTriangle ts)),
                   writable = w, free = fr - 50 - 50 * length ts\<rparr>)"
    using Cons.prems by (intro Cons.IH) auto
  then show ?case
    by (simp add: fill w Let_def) (simp add: fun_upd_def)
qed

lemma writeTriangles_full:
  assumes "buffer = replicate 50 0 \<or> (\<exists>t'. buffer = encodeTriangle t')"
    and "fr < 50 * length ts"
  shows "fst (writeTriangles ts buffer path \<lparr>files = f, writable = w, free = fr\<rparr>) \<noteq> None"
  using assms
proof (induction ts arbitrary: buffer f fr)
  case Nil
  then show ?case by simp
next
  case (Cons t ts)
  from Cons.prems(1) have fill: "fillRecord t buffer = encodeTriangle t"
    by (auto simp: fillRecord_replicate fillRecord_again)
  let ?fs = "\<lparr>files = f, writable = w, free = fr\<rparr>"
  show ?case
  proof (cases "fr < 50")
    case True
    then obtain n fs' where "file_Write path (encodeTriangle t) ?fs = ((n, Some WriteError), fs')"
      using file_Write_short [of ?fs "encodeTriangle t" path] by auto
    then show ?thesis by (simp add: fill Let_def)
  next
    case False
    let ?f = "f(path \<mapsto> (case f path of None \<Rightarrow> [] | Some bs \<Rightarrow> bs) @ encodeTriangle t)"
    from False have w: "file_Write path (encodeTriangle t) ?fs
        = ((50, None), \<lparr>files = ?f, writable = w, free = fr - 50\<rparr>)"
      by (simp add: file_Write_ok)
    from False Cons.prems(2) have "fr - 50 < 50 * length ts" by simp
    then have "fst (writeTriangles ts (encodeTriangle t) path
                 \<lparr>files = ?f, writable = w, free = fr - 50\<rparr>) \<noteq> None"
      by (intro Cons.IH) auto
    then show ?thesis by (simp add: fill w Let_def)
  qed
qed

lemma header_buffer: "putBytes 0 [83, 84, 76] (replicate 80 0) = stlHeader"
proof -
  have "drop 3 (replicate 80 (0::byte)) = replicate 77 0"
    by simp
  then show ?thesis
    by (simp add: putBytes_eq stlHeader_def)
qed

lemma length_stlHeader [simp]: "length stlHeader = 80"
  by (simp add: stlHeader_def)

lemma WriteToFile_ok:
  assumes "writable fs path" "84 + 50 * length (Triangles m) \<le> free fs"
  shows "WriteToFile m path fs =
           (None, fs\<lparr>files := (files fs)(path \<mapsto> encode (Triangles m)),
                     free := free fs - (84 + 50 * length (Triangles m))\<rparr>)"
proof -
  obtain f w fr where fs: "fs = \<lparr>files = f, writable = w, free = fr\<rparr>"
    by (cases fs) simp
  let ?n = "length (Triangles m)"
  let ?cnt = "le32 (of_nat ?n)"
  have w3: "writeTriangles (Triangles m) (replicate 50 0) path
              \<lparr>files = f(path \<mapsto> stlHeader @ ?cnt), writable = w, free = fr - 84\<rparr> =
      (None, \<lparr>files = (f(path \<mapsto> stlHeader @ ?cnt))(path \<mapsto> (stlHeader @ ?cnt) @ concat (map encodeTriangle (Triangles m))),
                     writable = w, free = fr - 84 - 50 * ?n\<rparr>)"
    using assms(2) by (intro writeTriangles_ok) (simp_all add: fs)
  show ?thesis
    using assms
    by (simp add: WriteToFile_def fs os_Create_def header_buffer file_Write_ok bytesFrom_le32
        w3 encode_def)
qed

lemma WriteToFile_None:
  assumes "WriteToFile m path fs = (None, fs')"
  shows "writable fs path \<and> 84 + 50 * length (Triangles m) \<le> free fs"
proof -
  obtain f w fr where fs: "fs = \<lparr>files = f, writable = w, free = fr\<rparr>"
    by (cases fs) simp
  let ?n = "length (Triangles m)"
  let ?cnt = "bytesFrom (of_nat ?n)"
  let ?fs0 = "\<lparr>files = f(path \<mapsto> []), writable = w, free = fr\<rparr>"
  let ?fs1 = "\<lparr>files = f(path \<mapsto> stlHeader), writable = w, free = fr - 80\<rparr>"
  let ?fs2 = "\<lparr>files = f(path \<mapsto> stlHeader @ ?cnt), writable = w, free = fr - 84\<rparr>"
  have wr: "w path"
    using assms by (auto simp: WriteToFile_def os_Create_def fs split: if_splits)
  then have c: "os_Create fs path = Inr ?fs0"
    by (simp add: os_Create_def fs)
  have f80: "80 \<le> fr"
  proof (rule ccontr)
    assume "\<not> 80 \<le> fr"
    then have "free ?fs0 < length stlHeader"
      by simp
    then obtain n fs1 where "file_Write path stlHeader ?fs0 = ((n, Some WriteError), fs1)"
      using file_Write_short by blast
    with assms show False
      by (simp add: WriteToFile_def c header_buffer)
  qed
  then have w1: "file_Write path stlHeader ?fs0 = ((80, None), ?fs1)"
    by (simp add: file_Write_ok)
  have f84: "84 \<le> fr"
  proof (rule ccontr)
    assume "\<not> 84 \<le> fr"
    then have "free ?fs1 < length ?cnt"
      by (simp add: length_bytesFrom)
    then obtain n fs2 where "file_Write path ?cnt ?fs1 = ((n, Some WriteError), fs2)"
      using file_Write_short by blast
    with assms show False
      by (simp add: WriteToFile_def c header_buffer w1)
  qed
  then have w2: "file_Write path ?cnt ?fs1 = ((4, None), ?fs2)"
    by (simp add: file_Write_ok length_bytesFrom)
  have "84 + 50 * ?n \<le> fr"
  proof (rule ccontr)
    assume "\<not> 84 + 50 * ?n \<le> fr"
    with f84 have "fr - 84 < 50 * ?n"
      by simp
    then have "fst (writeTriangles (Triangles m) (replicate 50 0) path ?fs2) \<noteq> None"
      by (intro writeTriangles_full) simp
    with assms show False
      by (simp add: WriteToFile_def c header_buffer w1 w2)
  qed
  with wr show ?thesis by (simp add: fs)
qed

subsection \<open>Parsing\<close>

lemma file_Read_full:
  assumes "0 < k" "k \<le> length reader"
  shows "file_Read k reader = ((take k reader, k, None), drop k reader)"
  using assms by (auto simp: file_Read_def min_def Let_def)

lemma file_Read_append:
  assumes "0 < length pre"
  shows "file_Read (length pre) (pre @ rest) = ((pre, length pre, None), rest)"
  using assms by (simp add: file_Read_full)


lemma byteSlice_append:
  assumes "length b = 4"
  shows "byteSlice (pre @ b @ post) (length pre) (length pre + 4) = Inr b"
  using assms by (simp add: byteSlice_def)

lemma floatAt_chunk:
  assumes "bytes = pre @ le32 (Float32bits x) @ post" "length pre = i * 4 + j * 3 * 4"
  shows "floatAt bytes j i = Inr x"
proof -
  have "byteSlice bytes (length pre) (length pre + 4) = Inr (le32 (Float32bits x))"
    unfolding assms(1) by (rule byteSlice_append) (rule length_le32)
  then show ?thesis
    by (simp add: floatAt_def assms(2) uint32From_le32)
qed

lemma vecAt_chunk:
  assumes "bytes = pre @ encodeVec v @ post" "length pre = 12 * j"
  shows "vecAt bytes j = Inr v"
proof -
  obtain x y z where v: "v = Vec3 x y z" by (cases v)
  let ?bx = "le32 (Float32bits x)" and ?by = "le32 (Float32bits y)"
    and ?bz = "le32 (Float32bits z)"
  have "floatAt bytes j 0 = Inr x"
    by (rule floatAt_chunk [where pre = pre and post = "?by @ ?bz @ post"])
      (simp_all add: assms v encodeVec_def)
  moreover have "floatAt bytes j 1 = Inr y"
    by (rule floatAt_chunk [where pre = "pre @ ?bx" and post = "?bz @ post"])
      (simp_all add: assms v encodeVec_def)
  moreover have "floatAt bytes j 2 = Inr z"
    by (rule floatAt_chunk [where pre = "pre @ ?bx @ ?by" and post = post])
      (simp_all add: assms v encodeVec_def)
  ultimately show ?thesis
    by (simp add: vecAt_def v)
qed

lemma triangleFrom_encodeTriangle: "triangleFrom (encodeTriangle t) = Inr t"
proof -
  let ?b = "encodeTriangle t"
  have "vecAt ?b 0 = Inr (Normal t)"
    by (rule vecAt_chunk [where pre = "[]" and post = "encodeVec (P0 t) @ encodeVec (P1 t) @ encodeVec (P2 t) @ [0, 0]"])
      (simp_all add: encodeTriangle_def)
  moreover have "vecAt ?b 1 = Inr (P0 t)"
    by (rule vecAt_chunk [where pre = "encodeVec (Normal t)" and post = "encodeVec (P1 t) @ encodeVec (P2 t) @ [0, 0]"])
      (simp_all add: encodeTriangle_def)
  moreover have "vecAt ?b 2 = Inr (P1 t)"
    by (rule vecAt_chunk [where pre = "encodeVec (Normal t) @ encodeVec (P0 t)" and post = "encodeVec (P2 t) @ [0, 0]"])
      (simp_all add: encodeTriangle_def)
  moreover have "vecAt ?b 3 = Inr (P2 t)"
    by (rule vecAt_chunk [where pre = "encodeVec (Normal t) @ encodeVec (P0 t) @ encodeVec (P1 t)" and post = "[0, 0]"])
      (simp_all add: encodeTriangle_def)
  ultimately show ?thesis
    by (simp add: triangleFrom_def)
qed

lemma readTriangles_encoded:
  assumes "length tris = n" "i + length ts = n"
  shows "readTriangles i n tris (concat (map encodeTriangle ts) @ rest) = Inr (take i tris @ ts)"
  using assms
proof (induction ts arbitrary: i tris)
  case Nil
  then show ?case by (simp add: readTriangles.simps)
next
  case (Cons t ts)
  then have i: "i < n" by simp
  have rd: "file_Read 50 (encodeTriangle t @ concat (map encodeTriangle ts) @ rest)
      = ((encodeTriangle t, 50, None), concat (map encodeTriangle ts) @ rest)"
    using file_Read_append [of "encodeTriangle t" "concat (map encodeTriangle ts) @ rest"]
    by simp
  have "readTriangles (i + 1) n (tris[i := t]) (concat (map encodeTriangle ts) @ rest)
      = Inr (take (i + 1) (tris[i := t]) @ ts)"
    using Cons.prems by (intro Cons.IH) simp_all
  moreover have "take (i + 1) (tris[i := t]) = take i tris @ [t]"
    using i Cons.prems(1) by (simp add: take_Suc_conv_app_nth)
  ultimately show ?case
    using i by (subst readTriangles.simps) (simp add: rd triangleFrom_encodeTriangle)
qed





subsection \<open>The codec claims\<close>

lemma ParseStlFile_mem_encode:
  assumes "files fs path = Some (encode ts)" and "fits heap (length ts mod 2 ^ 32)"
  shows "ParseStlFile_mem heap path fs
           = Inr \<lparr>filepath = path, Triangles = take (length ts mod 2 ^ 32) ts\<rparr>"
proof -
  let ?c = "of_nat (length ts) :: uint32"
  let ?k = "length ts mod 2 ^ 32"
  let ?recs = "concat (map encodeTriangle ts)"
  have n: "unat ?c = ?k"
    by (simp add: unat_of_nat)
  have k: "?k \<le> length ts"
    by simp
  have r1: "file_Read 80 (encode ts) = ((stlHeader, 80, None), le32 ?c @ ?recs)"
    using file_Read_append [of stlHeader "le32 ?c @ ?recs"] by (simp add: encode_def)
  have r2: "file_Read 4 (le32 ?c @ ?recs) = ((le32 ?c, 4, None), ?recs)"
    using file_Read_append [of "le32 ?c" ?recs] by simp
  have mk: "make_Triangles heap ?k = Inr (replicate ?k zeroTriangle)"
    using assms(2) by (simp add: make_Triangles_def)
  have "?recs = concat (map encodeTriangle (take ?k ts)) @ concat (map encodeTriangle (drop ?k ts))"
    by (simp flip: concat_append map_append)
  moreover have "readTriangles 0 ?k (replicate ?k zeroTriangle)
        (concat (map encodeTriangle (take ?k ts)) @ concat (map encodeTriangle (drop ?k ts)))
      = Inr (take 0 (replicate ?k zeroTriangle) @ take ?k ts)"
    using k by (intro readTriangles_encoded) simp_all
  ultimately have r3: "readTriangles 0 ?k (replicate ?k zeroTriangle) ?recs = Inr (take ?k ts)"
    by simp
  show ?thesis
    by (simp only: ParseStlFile_mem_def stlHeaderSize_def stlCountSize_def os_Open_def assms(1)
        r1 r2 uint32From_le32 n mk r3
        option.case sum.case prod.case bind_err_simps if_False less_irrefl)
qed

lemma ParseStlFile_encode_mod:
  assumes "files fs path = Some (encode ts)"
  shows "ParseStlFile path fs = Inr \<lparr>filepath = path, Triangles = take (length ts mod 2 ^ 32) ts\<rparr>"
  unfolding ParseStlFile_def using assms by (rule ParseStlFile_mem_encode) (simp add: fits_def)

lemma record_at:
  "i < length ts \<Longrightarrow> take 50 (drop (50 * i) (concat (map encodeTriangle ts))) = encodeTriangle (ts ! i)"
proof (induction ts arbitrary: i)
  case Nil
  then show ?case by simp
next
  case (Cons t ts)
  show ?case
  proof (cases i)
    case 0
    then show ?thesis by simp
  next
    case (Suc j)
    with Cons.prems have "j < length ts" by simp
    then have "take 50 (drop (50 * j) (concat (map encodeTriangle ts))) = encodeTriangle (ts ! j)"
      by (rule Cons.IH)
    then show ?thesis by (simp add: Suc)
  qed
qed

lemma WriteToFile_files:
  assumes "WriteToFile m path fs = (None, fs')"
  shows "files fs' path = Some (encode (Triangles m))"
proof -
  from WriteToFile_None [OF assms]
  have "WriteToFile m path fs =
           (None, fs\<lparr>files := (files fs)(path \<mapsto> encode (Triangles m)),
                     free := free fs - (84 + 50 * length (Triangles m))\<rparr>)"
    by (intro WriteToFile_ok) simp_all
  with assms show ?thesis by auto
qed

lemma count_field: "take 4 (drop 80 (encode ts)) = bytesFrom (of_nat (length ts))"
  by (simp add: encode_def bytesFrom_le32)

lemma WriteToFile_big_disk:
  assumes "84 + 50 * length (Triangles m) \<le> 1000000000000"
  shows "WriteToFile m path big_disk =
           (None, big_disk\<lparr>files := (files big_disk)(path \<mapsto> encode (Triangles m)),
                     free := free big_disk - (84 + 50 * length (Triangles m))\<rparr>)"
  using assms by (intro WriteToFile_ok) (simp_all add: big_disk_def)

lemma encodeTriangle_floats:
  "encodeTriangle t = concat (map (\<lambda>x. le32 (Float32bits x)) (floats t)) @ [0, 0]"
  by (simp add: encodeTriangle_def encodeVec_def floats_def)

lemma length_records: "length (concat (map encodeTriangle ts)) = 50 * length ts"
  by (induction ts) simp_all

text \<open>
  Claim C6. Whenever \<open>WriteToFile\<close> returns no error, the file it wrote is the header,
  the count and one record for each triangle, in order, \<open>84 + 50 n\<close> bytes for \<open>n\<close>
  triangles. The first three bytes are the characters \<open>S\<close>, \<open>T\<close>, \<open>L\<close> and the
  next 77 bytes are zero. The record of triangle \<open>i\<close> is the 50 bytes from offset
  \<open>84 + 50 i\<close>: the twelve floats of the triangle (the components of normal, p0, p1, p2,
  in that order), each one as the four base-256 digits of its bit pattern with the least
  significant digit first, and then two zero bytes.
\<close>

theorem WriteToFile_layout:
  assumes "WriteToFile m path fs = (None, fs')"
  shows "\<exists>out. files fs' path = Some out
           \<and> out = (map of_char ''STL'' @ replicate 77 0)
                     @ le32 (of_nat (length (Triangles m)))
                     @ concat (map (\<lambda>t. concat (map (\<lambda>x. le32 (Float32bits x)) (floats t)) @ [0, 0])
                         (Triangles m))
           \<and> length out = 84 + 50 * length (Triangles m)
           \<and> take 3 out = map of_char ''STL''
           \<and> take 77 (drop 3 out) = replicate 77 0
           \<and> (\<forall>i<length (Triangles m).
                 take 50 (drop (84 + 50 * i) out)
                   = concat (map (\<lambda>x. le32 (Float32bits x)) (floats (Triangles m ! i))) @ [0, 0]
                 \<and> length (floats (Triangles m ! i)) = 12
                 \<and> (\<forall>k<12. \<forall>j<4.
                       out ! (84 + 50 * i + 4 * k + j)
                         = of_nat (unat (Float32bits (floats (Triangles m ! i) ! k)) div 256 ^ j mod 256))
                 \<and> out ! (84 + 50 * i + 48) = 0
                 \<and> out ! (84 + 50 * i + 49) = 0)"
proof -
  let ?ts = "Triangles m"
  let ?rec = "\<lambda>t. concat (map (\<lambda>x. le32 (Float32bits x)) (floats t)) @ [0, 0]"
  have out: "files fs' path = Some (encode ?ts)"
    by (rule WriteToFile_files [OF assms])
  have e: "encode ?ts = (map of_char ''STL'' @ replicate 77 0) @ le32 (of_nat (length ?ts))
             @ concat (map ?rec ?ts)"
    by (simp add: encode_def stlHeader_def encodeTriangle_floats [abs_def])
  have len: "length (encode ?ts) = 84 + 50 * length ?ts"
    by (simp add: encode_def length_records)
  have h: "take 3 (encode ?ts) = map of_char ''STL''" "take 77 (drop 3 (encode ?ts)) = replicate 77 0"
    by (simp_all add: encode_def stlHeader_def)
  have r: "take 50 (drop (84 + 50 * i) (encode ?ts)) = ?rec (?ts ! i)" if "i < length ?ts" for i
    using record_at [OF that] by (simp add: encode_def encodeTriangle_floats)
  have byte: "encode ?ts ! (84 + 50 * i + p) = ?rec (?ts ! i) ! p"
    if "i < length ?ts" "p < 50" for i p
  proof -
    from that len have "84 + 50 * i + p < length (encode ?ts)"
      by simp
    then have "encode ?ts ! (84 + 50 * i + p) = take 50 (drop (84 + 50 * i) (encode ?ts)) ! p"
      using that(2) by (simp add: add.assoc)
    then show ?thesis
      by (simp only: r [OF that(1)])
  qed
  have digit: "?rec t ! (4 * k + j) = of_nat (unat (Float32bits (floats t ! k)) div 256 ^ j mod 256)"
    if "k < 12" "j < 4" for t k j
  proof -
    from that(2) have "j = 0 \<or> j = 1 \<or> j = 2 \<or> j = 3"
      by arith
    moreover from that(1) have "k = 0 \<or> k = 1 \<or> k = 2 \<or> k = 3 \<or> k = 4 \<or> k = 5 \<or> k = 6 \<or> k = 7
        \<or> k = 8 \<or> k = 9 \<or> k = 10 \<or> k = 11"
      by arith
    ultimately show ?thesis
      by (elim disjE) (simp_all add: floats_def le32_def)
  qed
  have tail: "?rec t ! 48 = 0" "?rec t ! 49 = 0" for t
    by (simp_all add: floats_def le32_def)
  have "out ! (84 + 50 * i + 4 * k + j)
          = of_nat (unat (Float32bits (floats (?ts ! i) ! k)) div 256 ^ j mod 256)"
    if "i < length ?ts" "k < 12" "j < 4" "out = encode ?ts" for i k j out
  proof -
    from that have "4 * k + j < 50" by simp
    from byte [OF that(1) this] digit [OF that(2,3)] show ?thesis
      by (simp add: that(4) add.assoc)
  qed
  moreover have "length (floats t) = 12" for t
    by (simp add: floats_def)
  ultimately show ?thesis
    using out e len h r byte [of _ 48] byte [of _ 49] tail by simp
qed

theorem WriteToFile_layout_witness:
  "\<exists>fs'. WriteToFile tri_mesh ''out.stl'' big_disk = (None, fs')
     \<and> (\<exists>out. files fs' ''out.stl'' = Some out
           \<and> length out = 134
           \<and> take 3 out = [0x53, 0x54, 0x4C]
           \<and> take 50 (drop 84 out)
               = [0, 0, 0, 0,  0, 0, 0, 0,  0, 0, 0x80, 0x3F,
                  0, 0, 0, 0,  0, 0, 0, 0,  0, 0, 0, 0,
                  0, 0, 0x80, 0x3F,  0, 0, 0, 0,  0, 0, 0, 0,
                  0, 0, 0, 0,  0, 0, 0x80, 0x3F,  0, 0, 0, 0,
                  0, 0]
           \<and> out ! (84 + 50 * 0 + 4 * 2 + 3) = 0x3F)"
proof -
  obtain fs' where w: "WriteToFile tri_mesh ''out.stl'' big_disk = (None, fs')"
    using WriteToFile_big_disk [of tri_mesh] by (simp add: tri_mesh_def)
  from WriteToFile_layout [OF w] obtain out where o: "files fs' ''out.stl'' = Some out"
    and len: "length out = 84 + 50 * length (Triangles tri_mesh)"
    and hd: "take 3 out = map of_char ''STL''"
    and recs: "\<forall>i<length (Triangles tri_mesh).
                 take 50 (drop (84 + 50 * i) out)
                   = concat (map (\<lambda>x. le32 (Float32bits x)) (floats (Triangles tri_mesh ! i))) @ [0, 0]
                 \<and> length (floats (Triangles tri_mesh ! i)) = 12
                 \<and> (\<forall>k<12. \<forall>j<4.
                       out ! (84 + 50 * i + 4 * k + j)
                         = of_nat (unat (Float32bits (floats (Triangles tri_mesh ! i) ! k)) div 256 ^ j mod 256))
                 \<and> out ! (84 + 50 * i + 48) = 0
                 \<and> out ! (84 + 50 * i + 49) = 0"
    by blast
  have i: "0 < length (Triangles tri_mesh)"
    by (simp add: tri_mesh_def)
  from recs [rule_format, OF i]
  have r: "take 50 (drop (84 + 50 * 0) out)
             = concat (map (\<lambda>x. le32 (Float32bits x)) (floats (Triangles tri_mesh ! 0))) @ [0, 0]"
    and b: "\<forall>k<12. \<forall>j<4. out ! (84 + 50 * 0 + 4 * k + j)
              = of_nat (unat (Float32bits (floats (Triangles tri_mesh ! 0) ! k)) div 256 ^ j mod 256)"
    by blast+
  from b [rule_format, of 2 3]
  have "out ! (84 + 50 * 0 + 4 * 2 + 3) = 0x3F"
    by (simp add: tri_mesh_def floats_def f32_one_def)
  moreover have "take 50 (drop 84 out)
               = [0, 0, 0, 0,  0, 0, 0, 0,  0, 0, 0x80, 0x3F,
                  0, 0, 0, 0,  0, 0, 0, 0,  0, 0, 0, 0,
                  0, 0, 0x80, 0x3F,  0, 0, 0, 0,  0, 0, 0, 0,
                  0, 0, 0, 0,  0, 0, 0x80, 0x3F,  0, 0, 0, 0,
                  0, 0]"
    using r by (simp add: tri_mesh_def floats_def le32_def f32_one_def f32_zero_def)
  ultimately show ?thesis
    using w o len hd by (simp add: tri_mesh_def)
qed

text \<open>
  Claim C5, as amended. Whatever the model \<open>m\<close> was (a parsed one, say), once its triangle
  sequence is \<open>ts\<close>, of fewer than \<open>2 ^ 32\<close> triangles, the count field written by
  \<open>WriteToFile\<close>, the 4 bytes from offset 80, is the little-endian encoding of the number
  \<open>length ts\<close>.
\<close>

theorem WriteToFile_count:
  assumes "WriteToFile (m\<lparr>Triangles := ts\<rparr>) path fs = (None, fs')"
    and "length ts < 2 ^ 32"
  shows "\<exists>out c. files fs' path = Some out
           \<and> take 4 (drop 80 out) = bytesFrom c
           \<and> uint32From (take 4 (drop 80 out)) = Inr c
           \<and> unat c = length ts"
proof -
  from WriteToFile_files [OF assms(1)] have "files fs' path = Some (encode ts)"
    by simp
  moreover have "unat (of_nat (length ts) :: uint32) = length ts"
    using assms(2) by (simp add: unat_of_nat)
  ultimately show ?thesis
    by (simp add: count_field uint32From_bytesFrom)
qed

theorem WriteToFile_count_witness:
  "\<exists>fs'. WriteToFile (empty_mesh\<lparr>Triangles := Triangles tri_mesh\<rparr>) ''out.stl'' big_disk = (None, fs')
     \<and> length (Triangles tri_mesh) < 2 ^ 32
     \<and> (\<exists>out. files fs' ''out.stl'' = Some out
           \<and> take 4 (drop 80 out) = [1, 0, 0, 0]
           \<and> uint32From (take 4 (drop 80 out)) = Inr 1)"
proof -
  let ?m = "empty_mesh\<lparr>Triangles := Triangles tri_mesh\<rparr>"
  obtain fs' where w: "WriteToFile ?m ''out.stl'' big_disk = (None, fs')"
    using WriteToFile_big_disk [of ?m] by (simp add: tri_mesh_def)
  have l: "length (Triangles tri_mesh) < 2 ^ 32"
    by (simp add: tri_mesh_def)
  from WriteToFile_count [OF w l] obtain out c where "files fs' ''out.stl'' = Some out"
    and "take 4 (drop 80 out) = bytesFrom c" and "uint32From (take 4 (drop 80 out)) = Inr c"
    and "unat c = length (Triangles tri_mesh)"
    by blast
  moreover from this have "c = 1"
    by (simp add: tri_mesh_def word_unat_eq_iff)
  ultimately show ?thesis
    using w l by (auto simp: bytesFrom_eq)
qed

text \<open>
  Claim C5 as stated fails on a model of \<open>2 ^ 32\<close> triangles: the conversion
  \<^verbatim>\<open>uint32(len(m.Triangles))\<close> wraps around and the count field is 0.
\<close>

theorem WriteToFile_count_counterexample:
  "length (Triangles big_mesh) = 4294967296
   \<and> (\<exists>fs'. WriteToFile big_mesh ''out.stl'' big_disk = (None, fs')
         \<and> (\<exists>out. files fs' ''out.stl'' = Some out
               \<and> take 4 (drop 80 out) = [0, 0, 0, 0]
               \<and> uint32From (take 4 (drop 80 out)) = Inr 0))"
proof -
  have l: "length (Triangles big_mesh) = 4294967296"
    by (simp add: big_mesh_def)
  then obtain fs' where w: "WriteToFile big_mesh ''out.stl'' big_disk = (None, fs')"
    using WriteToFile_big_disk [of big_mesh] by simp
  have "bytesFrom (of_nat (length (Triangles big_mesh))) = [0, 0, 0, 0]"
    by (simp add: l bytesFrom_eq)
  moreover have "uint32From [0, 0, 0, 0] = Inr 0"
    by (simp add: uint32From_eq)
  ultimately show ?thesis
    using WriteToFile_files [OF w] w l by (simp add: count_field)
qed

text \<open>
  Claim C2, as amended. Whenever \<open>WriteToFile\<close> returns no error for a model of fewer than
  \<open>2 ^ 32\<close> triangles, \<open>ParseStlFile\<close> on the file written returns a model with the same
  sequence of triangles: the same length and order and, a \<open>float32\<close> being its bit
  pattern, the same bits in every normal and vertex.
\<close>

theorem WriteToFile_ParseStlFile_roundtrip:
  assumes "WriteToFile m path fs = (None, fs')"
    and "length (Triangles m) < 2 ^ 32"
  shows "\<exists>m'. ParseStlFile path fs' = Inr m' \<and> Triangles m' = Triangles m"
  using ParseStlFile_encode_mod [OF WriteToFile_files [OF assms(1)]] assms(2) by simp

theorem WriteToFile_ParseStlFile_roundtrip_witness:
  "\<exists>fs'. WriteToFile tri_mesh ''out.stl'' big_disk = (None, fs')
     \<and> length (Triangles tri_mesh) < 2 ^ 32
     \<and> (\<exists>m'. ParseStlFile ''out.stl'' fs' = Inr m' \<and> Triangles m' = Triangles tri_mesh)"
proof -
  obtain fs' where w: "WriteToFile tri_mesh ''out.stl'' big_disk = (None, fs')"
    using WriteToFile_big_disk [of tri_mesh] by (simp add: tri_mesh_def)
  have l: "length (Triangles tri_mesh) < 2 ^ 32"
    by (simp add: tri_mesh_def)
  from WriteToFile_ParseStlFile_roundtrip [OF w l] w l show ?thesis
    by blast
qed

text \<open>
  Claim C2 as stated fails on a model of \<open>2 ^ 32\<close> triangles: its file declares 0
  triangles, and parsing it returns the model without triangles.
\<close>

theorem WriteToFile_ParseStlFile_roundtrip_counterexample:
  "\<exists>fs'. WriteToFile big_mesh ''out.stl'' big_disk = (None, fs')
     \<and> ParseStlFile ''out.stl'' fs' = Inr \<lparr>filepath = ''out.stl'', Triangles = []\<rparr>
     \<and> length (Triangles big_mesh) = 4294967296"
proof -
  have l: "length (Triangles big_mesh) = 4294967296"
    by (simp add: big_mesh_def)
  then obtain fs' where w: "WriteToFile big_mesh ''out.stl'' big_disk = (None, fs')"
    using WriteToFile_big_disk [of big_mesh] by simp
  from ParseStlFile_encode_mod [OF WriteToFile_files [OF w]] w l show ?thesis
    by simp
qed






subsection \<open>Arithmetic and the cross product\<close>

lemma fneg_fneg: "fneg (fneg x) = x"
  by (simp add: fneg_def xor.assoc)

lemma sign_bit_general:
  assumes "m < 2 ^ k"
  shows "(of_nat (2 ^ k + m) :: uint32) = of_nat m XOR 2 ^ k"
proof -
  have "\<not> bit m k"
    using assms by (simp add: bit_iff_odd)
  then have "(of_nat m :: uint32) AND 2 ^ k = 0"
    by (intro bit_word_eqI) (auto simp: bit_simps)
  then have "(of_nat m :: uint32) + 2 ^ k = of_nat m XOR 2 ^ k"
    by (rule disjunctive_add_eq_xor)
  then show ?thesis
    by (simp add: add.commute)
qed

lemma sign_bit_word:
  assumes "m < 2147483648"
  shows "(2147483648 + of_nat m :: uint32) = of_nat m XOR 2147483648"
  using sign_bit_general [of m 31] assms by simp

lemma round_mag_le: "round_mag 23 8 q \<le> 2139095040"
  by (simp add: round_mag_def Let_def)

lemma fpround_Fin:
  "fpround 23 8 (Fin s q) = (if s then 2 ^ 31 else 0) + round_mag 23 8 q"
  by (simp add: fpround_def)

lemma pack32_Fin_neg: "pack32 (Fin True q) = fneg (pack32 (Fin False q))"
proof -
  have "round_mag 23 8 q < 2 ^ 31"
    using round_mag_le [of q] by simp
  then show ?thesis
    by (simp add: pack32_def fpround_Fin fneg_def sign_bit_word)
qed

lemma pack32_Infty_neg: "pack32 (Infty True) = fneg (pack32 (Infty False))"
  by (simp add: pack32_def fpround_def fneg_def)

lemma pack32_neg: "v \<noteq> NaN \<Longrightarrow> pack32 (val_neg v) = fneg (pack32 v)"
proof (cases v)
  case NaN
  assume "v \<noteq> NaN"
  with NaN show ?thesis by simp
next
  case (Infty s)
  then show ?thesis
    by (cases s) (simp_all add: pack32_Infty_neg fneg_fneg)
next
  case (Fin s q)
  then show ?thesis
    by (cases s) (simp_all add: pack32_Fin_neg fneg_fneg)
qed

lemma val_sub_swap:
  "val_sub b a = val_neg (val_sub a b) \<or> (\<exists>s s'. val_sub a b = Fin s 0 \<and> val_sub b a = Fin s' 0)"
  by (cases a; cases b) (auto simp: val_sub_def Let_def)

lemma decode32_qnan: "decode32 (pack32 NaN) = NaN"
  by (simp add: pack32_def fpround_def decode32_def decode_def)

lemma decode32_zeros:
  "decode32 (pack32 (Fin s 0)) = Fin s 0"
  "decode32 (fneg (pack32 (Fin s 0))) = Fin (\<not> s) 0"
  by (cases s; simp add: pack32_def fpround_def round_mag_def fneg_def decode32_def decode_def)+

lemma feq_refl: "\<not> isNaN x \<Longrightarrow> feq x x"
  by (simp add: feq_def val_eq_def isNaN_def)

lemma fsub_antisym:
  assumes "\<not> isNaN (fsub p q)"
  shows "feq (fsub p q) (fneg (fsub q p))"
    and "fsub p q = fneg (fsub q p) \<or> (feq (fsub p q) f32_zero \<and> feq (fsub q p) f32_zero)"
proof -
  let ?v = "val_sub (decode32 p) (decode32 q)" and ?v' = "val_sub (decode32 q) (decode32 p)"
  from assms have nn: "?v \<noteq> NaN"
    by (auto simp: fsub_def isNaN_def decode32_qnan)
  have z: "decode32 f32_zero = Fin False 0"
    by (simp add: f32_zero_def decode32_def decode_def)
  from val_sub_swap [of "decode32 q" "decode32 p"]
  have "feq (fsub p q) (fneg (fsub q p))
      \<and> (fsub p q = fneg (fsub q p) \<or> (feq (fsub p q) f32_zero \<and> feq (fsub q p) f32_zero))"
  proof
    assume "?v' = val_neg ?v"
    then have "fsub q p = fneg (fsub p q)"
      using nn by (simp add: fsub_def pack32_neg)
    then have "fneg (fsub q p) = fsub p q"
      by (simp add: fneg_fneg)
    with assms show ?thesis
      by (simp add: feq_refl)
  next
    assume "\<exists>s s'. ?v = Fin s 0 \<and> ?v' = Fin s' 0"
    then obtain s s' where "?v = Fin s 0" "?v' = Fin s' 0" by blast
    then show ?thesis
      by (simp add: fsub_def feq_def val_eq_def decode32_zeros z)
  qed
  then show "feq (fsub p q) (fneg (fsub q p))"
    and "fsub p q = fneg (fsub q p) \<or> (feq (fsub p q) f32_zero \<and> feq (fsub q p) f32_zero)"
    by simp_all
qed

lemma ilog2_one: "ilog2 1 = 0"
  by (simp add: ilog2_def bitlen.simps)

lemma rne_one: "rne 8388608 = 8388608"
  by (simp add: rne_def Let_def)

lemma pow2_ulp_one: "pow2 (- 23) = 1 / 8388608"
  by (simp add: pow2_def)

lemma round_mag_one: "round_mag 23 8 1 = 1065353216"
  by (simp add: round_mag_def ilog2_one bias_def Let_def pow2_ulp_one rne_one)

lemma round_mag_zero: "round_mag fw ew 0 = 0"
  by (simp add: round_mag_def)

lemma pack32_consts:
  "pack32 (Fin False 0) = f32_zero"
  "pack32 (Fin False 1) = f32_one"
  "pack32 (Fin True 1) = f32_minus_one"
  by (simp_all add: pack32_def fpround_def round_mag_one round_mag_zero
      f32_zero_def f32_one_def f32_minus_one_def)


lemma arith_consts:
  "fmul f32_zero f32_zero = f32_zero"
  "fmul f32_zero f32_one = f32_zero"
  "fmul f32_one f32_zero = f32_zero"
  "fmul f32_one f32_one = f32_one"
  "fsub f32_zero f32_zero = f32_zero"
  "fsub f32_one f32_zero = f32_one"
  "fsub f32_zero f32_one = f32_minus_one"
  "fadd f32_zero f32_zero = f32_zero"
  "fadd f32_zero f32_one = f32_one"
  by (simp_all add: fmul_def fsub_def fadd_def val_sub_def decode_consts pack32_consts)

lemma scenario_cross:
  "cross (P0 scenario_triangle) (P1 scenario_triangle) = Vec3 f32_zero f32_zero f32_one"
  "cross (P1 scenario_triangle) (P0 scenario_triangle) = Vec3 f32_zero f32_zero f32_minus_one"
  by (simp_all add: scenario_triangle_def cross_def arith_consts)


text \<open>
  Claim C8. Every component of \<open>cross a b\<close> that is not a NaN is equal, in the sense of
  \<^verbatim>\<open>==\<close>, to the negation of the same component of \<open>cross b a\<close>: the two have the same
  bits, or both are zeros (a difference that is exactly zero is \<open>+0\<close> in both orders, and
  its negation is \<open>-0\<close>).
\<close>

theorem cross_antisymmetric:
  assumes "i < 3" and "\<not> isNaN (idx (cross a b) i)"
  shows "feq (idx (cross a b) i) (fneg (idx (cross b a) i))
       \<and> (idx (cross a b) i = fneg (idx (cross b a) i)
           \<or> (feq (idx (cross a b) i) f32_zero \<and> feq (idx (cross b a) i) f32_zero))"
proof -
  have sub: "feq (fsub p q) (fneg (fsub q p))
       \<and> (fsub p q = fneg (fsub q p) \<or> (feq (fsub p q) f32_zero \<and> feq (fsub q p) f32_zero))"
    if "\<not> isNaN (fsub p q)" for p q
    using fsub_antisym [OF that] by blast
  from assms(1) consider "i = 0" | "i = 1" | "i = 2" by arith
  then show ?thesis
  proof cases
    case 1
    with assms(2) have "\<not> isNaN (fsub (fmul (idx a 1) (idx b 2)) (fmul (idx b 1) (idx a 2)))"
      by (simp add: cross_def)
    from sub [OF this] show ?thesis by (simp add: 1 cross_def)
  next
    case 2
    with assms(2) have "\<not> isNaN (fsub (fmul (idx a 2) (idx b 0)) (fmul (idx b 2) (idx a 0)))"
      by (simp add: cross_def)
    from sub [OF this] show ?thesis by (simp add: 2 cross_def)
  next
    case 3
    with assms(2) have "\<not> isNaN (fsub (fmul (idx a 0) (idx b 1)) (fmul (idx b 0) (idx a 1)))"
      by (simp add: cross_def)
    from sub [OF this] show ?thesis by (simp add: 3 cross_def)
  qed
qed

theorem cross_antisymmetric_witness:
  "(2 :: nat) < 3
   \<and> \<not> isNaN (idx (cross (P0 scenario_triangle) (P1 scenario_triangle)) 2)
   \<and> idx (cross (P0 scenario_triangle) (P1 scenario_triangle)) 2 = f32_one
   \<and> idx (cross (P1 scenario_triangle) (P0 scenario_triangle)) 2 = f32_minus_one
   \<and> feq f32_one (fneg f32_minus_one)"
proof -
  have h: "\<not> isNaN (idx (cross (P0 scenario_triangle) (P1 scenario_triangle)) 2)"
    by (simp add: scenario_cross isNaN_def decode_consts)
  from cross_antisymmetric [of 2, OF _ h] show ?thesis
    using h by (simp add: scenario_cross)
qed

subsection \<open>The pass over the triangles\<close>

lemma mainLoop_eq:
  "mainLoop Sqrt 0 ts = (case ts of [] \<Rightarrow> [] | t # rest \<Rightarrow> fixNormal Sqrt t # rest)"
proof (cases ts)
  case Nil
  then show ?thesis by (simp add: mainLoop.simps)
next
  case (Cons t rest)
  have "mainLoop Sqrt 0 (t # rest) = mainLoop Sqrt 1 (fixNormal Sqrt t # rest)"
    by (subst mainLoop.simps) simp
  also have "\<dots> = fixNormal Sqrt t # rest"
    by (subst mainLoop.simps) simp
  finally show ?thesis by (simp add: Cons)
qed

text \<open>
  Claim C7. The pass of \<open>main\<close> over the triangles keeps their number; it leaves \<open>P0\<close>,
  \<open>P1\<close> and \<open>P2\<close> of every triangle as they are, and every triangle after the first
  one unchanged in all its fields: only \<open>Normal\<close> of the first triangle can change.
\<close>

theorem mainLoop_frame:
  "length (mainLoop Sqrt 0 ts) = length ts
   \<and> (\<forall>i<length ts.
         P0 (mainLoop Sqrt 0 ts ! i) = P0 (ts ! i)
         \<and> P1 (mainLoop Sqrt 0 ts ! i) = P1 (ts ! i)
         \<and> P2 (mainLoop Sqrt 0 ts ! i) = P2 (ts ! i)
         \<and> (0 < i \<longrightarrow> mainLoop Sqrt 0 ts ! i = ts ! i))"
proof (cases ts)
  case Nil
  then show ?thesis by (simp add: mainLoop_eq)
next
  case (Cons t rest)
  have "P0 ((fixNormal Sqrt t # rest) ! i) = P0 ((t # rest) ! i)
      \<and> P1 ((fixNormal Sqrt t # rest) ! i) = P1 ((t # rest) ! i)
      \<and> P2 ((fixNormal Sqrt t # rest) ! i) = P2 ((t # rest) ! i)
      \<and> (0 < i \<longrightarrow> (fixNormal Sqrt t # rest) ! i = (t # rest) ! i)" for i
    by (cases i) (simp_all add: fixNormal_def)
  then show ?thesis
    by (simp add: mainLoop_eq Cons)
qed

theorem mainLoop_frame_witness:
  "\<forall>Sqrt. length (mainLoop Sqrt 0 [scenario_triangle, scenario_triangle]) = 2
     \<and> P0 (mainLoop Sqrt 0 [scenario_triangle, scenario_triangle] ! 0) = P0 scenario_triangle
     \<and> (1 :: nat) < length [scenario_triangle, scenario_triangle]
     \<and> mainLoop Sqrt 0 [scenario_triangle, scenario_triangle] ! 1 = scenario_triangle"
proof
  fix Sqrt
  let ?ts = "[scenario_triangle, scenario_triangle]"
  from mainLoop_frame [of Sqrt ?ts]
  have len: "length (mainLoop Sqrt 0 ?ts) = length ?ts"
    and frame: "\<forall>i<length ?ts.
         P0 (mainLoop Sqrt 0 ?ts ! i) = P0 (?ts ! i)
         \<and> P1 (mainLoop Sqrt 0 ?ts ! i) = P1 (?ts ! i)
         \<and> P2 (mainLoop Sqrt 0 ?ts ! i) = P2 (?ts ! i)
         \<and> (0 < i \<longrightarrow> mainLoop Sqrt 0 ?ts ! i = ?ts ! i)"
    by blast+
  from frame [rule_format, of 0] frame [rule_format, of 1] len
  show "length (mainLoop Sqrt 0 ?ts) = 2
     \<and> P0 (mainLoop Sqrt 0 ?ts ! 0) = P0 scenario_triangle
     \<and> (1 :: nat) < length ?ts
     \<and> mainLoop Sqrt 0 ?ts ! 1 = scenario_triangle"
    by simp
qed
subsection \<open>The corrected normal\<close>
















subsection \<open>Checks of the arithmetic\<close>

text \<open>
  Known results of binary32 arithmetic, as checks of the definitions of rounding:
  \<open>0.1 + 0.2\<close> (inexact, rounded up), \<open>1 / 3\<close>, the largest finite number times 2
  (overflow to infinity), and three times the smallest subnormal number times \<open>1/2\<close> (a
  tie, rounded to the even neighbour).
\<close>

lemma floor_rat_numeral: "\<lfloor>(numeral a :: rat) / numeral b\<rfloor> = numeral a div numeral b"
  using floor_divide_of_int_eq [of "numeral a" "numeral b", where ?'a = rat] by simp

lemma ceiling_rat_numeral: "\<lceil>(numeral a :: rat) / numeral b\<rceil> = - (- numeral a div numeral b)"
  using floor_divide_of_int_eq [of "- numeral a" "numeral b", where ?'a = rat]
  by (simp add: ceiling_def)

lemmas decode32_eval = decode32_def decode_def pow2_def bias_def

lemma check_add_inexact:
  "fadd (Float32frombits 0x3DCCCCCD) (Float32frombits 0x3E4CCCCD) = Float32frombits 0x3E99999A"
proof -
  have "decode32 (Float32frombits 0x3DCCCCCD) = Fin False (13421773 / 134217728)"
    and "decode32 (Float32frombits 0x3E4CCCCD) = Fin False (13421773 / 67108864)"
    by (simp_all add: decode32_eval)
  moreover have "ilog2 (40265319 / 134217728) = - 2"
    by (simp add: ilog2_def bitlen.simps ceiling_rat_numeral)
  moreover have "rne (40265319 / 4) = 10066330"
    by (simp add: rne_def Let_def floor_rat_numeral)
  ultimately show ?thesis
    by (simp add: fadd_def Let_def pack32_def fpround_def round_mag_def bias_def pow2_def)
qed

lemma check_div_third:
  "fdiv (Float32frombits 0x3F800000) (Float32frombits 0x40400000) = Float32frombits 0x3EAAAAAB"
proof -
  have "decode32 (Float32frombits 0x3F800000) = Fin False 1"
    and "decode32 (Float32frombits 0x40400000) = Fin False 3"
    by (simp_all add: decode32_eval)
  moreover have "ilog2 (1 / 3) = - 2"
    by (simp add: ilog2_def bitlen.simps)
  moreover have "rne (33554432 / 3) = 11184811"
    by (simp add: rne_def Let_def floor_rat_numeral)
  ultimately show ?thesis
    by (simp add: fdiv_def Let_def pack32_def fpround_def round_mag_def bias_def pow2_def)
qed

lemma check_mul_overflow:
  "fmul (Float32frombits 0x7F7FFFFF) (Float32frombits 0x40000000) = Float32frombits 0x7F800000"
proof -
  have "decode32 (Float32frombits 0x7F7FFFFF) = Fin False 340282346638528859811704183484516925440"
    and "decode32 (Float32frombits 0x40000000) = Fin False 2"
    by (simp_all add: decode32_eval)
  moreover have "ilog2 680564693277057719623408366969033850880 = 128"
    by (simp add: ilog2_def bitlen.simps)
  moreover have "rne (16777215 / 1) = 16777215"
    by (simp add: rne_def Let_def)
  ultimately show ?thesis
    by (simp add: fmul_def Let_def pack32_def fpround_def round_mag_def bias_def pow2_def)
qed

lemma check_mul_subnormal_tie:
  "fmul (Float32frombits 0x00000003) (Float32frombits 0x3F000000) = Float32frombits 0x00000002"
proof -
  have "decode32 (Float32frombits 0x00000003) = Fin False (3 / 2 ^ 149)"
    and "decode32 (Float32frombits 0x3F000000) = Fin False (1 / 2)"
    by (simp_all add: decode32_eval)
  moreover have "rne (3 / 2) = 2"
    by (simp add: rne_def Let_def floor_rat_numeral)
  moreover have "ilog2 (3 / 2 ^ 150) < - 126"
    by (simp add: ilog2_def bitlen.simps ceiling_rat_numeral)
  ultimately show ?thesis
    by (simp add: fmul_def Let_def pack32_def fpround_def round_mag_def bias_def pow2_def max_def)
qed

end
